theory Spec2Isabelle
  imports Main "HOL-Library.Sublist"
begin

section \<open>The camera skill: data model\<close>

text \<open>
  The skill is a Python class whose methods call into three facilities it does not
  implement: the host runtime (message bus, vocabulary registration, spoken dialogs,
  logging, \<open>sleep\<close>), the host GUI bridge and the native CEC binding. Every such call is
  recorded as an \<open>event\<close> with the arguments the skill passes (a handler that is passed
  is recorded by its method name). The text of log messages
  is not kept, only the level; the attribute reads and the CEC calls that the formatted
  log strings perform are kept, in the order Python evaluates them.
\<close>

datatype level = DEBUG | INFO | WARNING | ERROR

text \<open>The \<open>idle\<close> argument of \<open>show_stream\<close>: the object \<open>True\<close> or an integer.\<close>

datatype idle = IdleTrue | IdleSecs int

text \<open>Values stored in the GUI session data by \<open>self.gui[key] = value\<close>.\<close>

datatype guival = GBool bool | GStr string

text \<open>The descriptor of a detected CEC adapter, as far as the skill reads it.\<close>

record adapter =
  strComName :: string
  iVendorId :: int
  iProductId :: int

datatype event =
    SuperInit string
  | ExpandUser string
  | IsDir string
  | Makedirs string
  | GuiRegisterHandler string string
  | BusOn string string
  | RegisterVocabulary string string
  | SpeakDialog string "(string \<times> string) list"
  | Log level
  | Sleep int
  | GuiSet string guival
  | GuiShowPage string bool bool
  | GuiShowUrl "string option" idle
  | GuiRemovePage string
  | GuiRelease
  | CecConfiguration
  | CecAddDeviceType
  | CecCreate
  | DetectAdapters
  | CecOpen string
  | GetActiveDevices
  | IsSet nat
  | GetDeviceVendorId nat
  | GetDeviceCecVersion nat
  | GetDevicePowerStatus nat
  | LogicalAddressToString nat
  | GetDevicePhysicalAddress nat
  | IsActiveSource nat
  | VendorIdToString int
  | CecVersionToString int
  | GetDeviceOSDName nat
  | PowerStatusToString int
  | SetActiveSource
  | StandbyDevices nat

text \<open>
  An error is either Python's \<open>AttributeError\<close> for an instance attribute that has not
  been assigned yet (with the attribute's name), or an error raised inside a callee.
\<close>

datatype exn = AttributeError string | CalleeError string

text \<open>
  The environment answers every call. Its answer may depend on all the calls issued
  before (the history) and on the call itself: \<open>raises\<close> says whether the call raises,
  the other fields give the value it returns when it does not.
\<close>

record env =
  raises :: "event list \<Rightarrow> event \<Rightarrow> string option"
  ret_bool :: "event list \<Rightarrow> event \<Rightarrow> bool"
  ret_int :: "event list \<Rightarrow> event \<Rightarrow> int"
  ret_str :: "event list \<Rightarrow> event \<Rightarrow> string"
  ret_adapters :: "event list \<Rightarrow> event \<Rightarrow> adapter list"

text \<open>
  The instance attributes. \<open>camera_mode\<close>, \<open>cams\<close> and \<open>save_folder\<close> are assigned by
  the constructor; \<open>remote\<close>, \<open>display\<close>, \<open>display_id\<close> and \<open>display_status\<close> are
  assigned later, and \<open>None\<close> here means that the attribute does not exist yet.
  \<open>cams\<close> holds the items of the configured dictionary in their order.
\<close>

record skill =
  camera_mode :: "string option"
  cams :: "(string \<times> string) list"
  save_folder :: string
  remote :: "unit option"
  display :: "bool option"
  display_id :: "nat option"
  display_status :: "string option"

text \<open>A bus message; \<open>data\<close> is its dictionary of string values.\<close>

datatype message = Message (data: "string \<Rightarrow> string option")

section \<open>Statements as state transformers\<close>

text \<open>
  A statement runs in an environment on the pair of the skill object and the calls
  issued so far. It returns a value or the error it raised, the object as it has become
  (assignments made before an error remain) and the extended list of calls.
\<close>

type_synonym 'a act = "env \<Rightarrow> skill \<times> event list \<Rightarrow> (exn + 'a) \<times> skill \<times> event list"

definition ret :: "'a \<Rightarrow> 'a act" where
  "ret x E st = (Inr x, st)"

definition bnd :: "'a act \<Rightarrow> ('a \<Rightarrow> 'b act) \<Rightarrow> 'b act" where
  "bnd m k E st = (case m E st of (Inl e, st') \<Rightarrow> (Inl e, st') | (Inr x, st') \<Rightarrow> k x E st')"

definition thn :: "'a act \<Rightarrow> 'b act \<Rightarrow> 'b act" where
  "thn m k = bnd m (\<lambda>_. k)"

fun seq :: "unit act list \<Rightarrow> unit act" where
  "seq [] = ret ()"
| "seq (m # ms) = thn m (seq ms)"

definition foreach :: "'a list \<Rightarrow> ('a \<Rightarrow> unit act) \<Rightarrow> unit act" where
  "foreach xs f = seq (map f xs)"

text \<open>A call is recorded, then it raises or returns as the environment says.\<close>

definition answer :: "event \<Rightarrow> 'a \<Rightarrow> 'a act" where
  "answer c v E st =
     (case raises E (snd st) c of
        Some e \<Rightarrow> (Inl (CalleeError e), fst st, snd st @ [c])
      | None \<Rightarrow> (Inr v, fst st, snd st @ [c]))"

definition call :: "event \<Rightarrow> unit act" where
  "call c E st = answer c () E st"

definition call_bool :: "event \<Rightarrow> bool act" where
  "call_bool c E st = answer c (ret_bool E (snd st) c) E st"

definition call_int :: "event \<Rightarrow> int act" where
  "call_int c E st = answer c (ret_int E (snd st) c) E st"

definition call_str :: "event \<Rightarrow> string act" where
  "call_str c E st = answer c (ret_str E (snd st) c) E st"

definition call_adapters :: "event \<Rightarrow> adapter list act" where
  "call_adapters c E st = answer c (ret_adapters E (snd st) c) E st"

text \<open>Reading an attribute that may not exist, reading one that does, and assigning.\<close>

definition getattr :: "string \<Rightarrow> (skill \<Rightarrow> 'a option) \<Rightarrow> 'a act" where
  "getattr n f E st =
     (case f (fst st) of None \<Rightarrow> (Inl (AttributeError n), st) | Some v \<Rightarrow> (Inr v, st))"

definition gets :: "(skill \<Rightarrow> 'a) \<Rightarrow> 'a act" where
  "gets f E st = (Inr (f (fst st)), st)"

definition setattr :: "(skill \<Rightarrow> skill) \<Rightarrow> unit act" where
  "setattr f E st = (Inr (), f (fst st), snd st)"

text \<open>Python's truth value of a string or \<open>None\<close>.\<close>

definition truthy :: "string option \<Rightarrow> bool" where
  "truthy v = (case v of None \<Rightarrow> False | Some s \<Rightarrow> s \<noteq> [])"

text \<open>\<open>self.cams.get(key, None)\<close>; the key \<open>None\<close> is not a key of the dictionary.\<close>

definition cams_get :: "(string \<times> string) list \<Rightarrow> string option \<Rightarrow> string option" where
  "cams_get cs key = (case key of None \<Rightarrow> None | Some k \<Rightarrow> map_of cs k)"

section \<open>The methods of CameraSkill\<close>

text \<open>The constructor, on an object without attributes.\<close>

definition blank :: skill where
  "blank = \<lparr>camera_mode = None, cams = [], save_folder = [], remote = None,
            display = None, display_id = None, display_status = None\<rparr>"

definition skill_init :: "(string \<times> string) list option \<Rightarrow> unit act" where
  "skill_init config_cams =
     seq [call (SuperInit ''CameraSkill''),
          setattr (\<lambda>s. s\<lparr>camera_mode := None\<rparr>),
          setattr (\<lambda>s. s\<lparr>cams := (case config_cams of None \<Rightarrow> [] | Some cs \<Rightarrow> cs)\<rparr>),
          bnd (call_str (ExpandUser ''~/Pictures'')) (\<lambda>p. setattr (\<lambda>s. s\<lparr>save_folder := p\<rparr>)),
          bnd (gets save_folder) (\<lambda>f.
          bnd (call_bool (IsDir f)) (\<lambda>b.
            if \<not> b then bnd (gets save_folder) (\<lambda>f'. call (Makedirs f')) else ret ()))]"

definition create_skill ::
  "(string \<times> string) list option \<Rightarrow> env \<Rightarrow> event list \<Rightarrow> (exn + skill) \<times> event list" where
  "create_skill config_cams E tr =
     (case skill_init config_cams E (blank, tr) of
        (Inl e, s, tr') \<Rightarrow> (Inl e, tr')
      | (Inr u, s, tr') \<Rightarrow> (Inr s, tr'))"

text \<open>The body of the loop over the sixteen logical addresses in \<open>setup_cec\<close>.\<close>

definition probe_device :: "nat \<Rightarrow> unit act" where
  "probe_device x =
     bnd (call_bool (IsSet x)) (\<lambda>present.
       if present then
         bnd (call_int (GetDeviceVendorId x)) (\<lambda>vendorId.
         bnd (call_int (GetDeviceCecVersion x)) (\<lambda>cecVersion.
         bnd (call_int (GetDevicePowerStatus x)) (\<lambda>power.
           seq [call (LogicalAddressToString x), call (Log DEBUG),
                call (GetDevicePhysicalAddress x), call (Log DEBUG),
                call (IsActiveSource x), call (Log DEBUG),
                call (VendorIdToString vendorId), call (Log DEBUG),
                call (CecVersionToString cecVersion), call (Log DEBUG),
                call (GetDeviceOSDName x), call (Log DEBUG),
                call (PowerStatusToString power), call (Log DEBUG)])))
       else ret ())"

text \<open>
  \<open>setup_cec\<close>. The assignments to the fields of the local configuration object are not
  calls and are not recorded. \<open>self.remote\<close> is assigned before the adapters are detected,
  \<open>self.display\<close> in both branches, \<open>self.display_id\<close> only at the end of the branch that
  found an adapter.
\<close>

definition setup_cec :: "unit act" where
  "setup_cec =
     seq [call CecConfiguration,
          call CecAddDeviceType,
          call CecCreate,
          setattr (\<lambda>s. s\<lparr>remote := Some ()\<rparr>),
          bnd (call_adapters DetectAdapters) (\<lambda>adapters.
            seq [foreach adapters (\<lambda>a. call (Log DEBUG)),
                 if length adapters = 0 then
                   seq [call (Log WARNING),
                        call (SpeakDialog ''display.not.available'' []),
                        setattr (\<lambda>s. s\<lparr>display := Some False\<rparr>)]
                 else
                   seq [call (Log DEBUG),
                        setattr (\<lambda>s. s\<lparr>display := Some True\<rparr>),
                        bnd (call_bool (CecOpen (strComName (adapters ! 0)))) (\<lambda>opened.
                          if opened then call (Log INFO) else call (Log ERROR)),
                        call GetActiveDevices,
                        foreach [0..<16] probe_device,
                        setattr (\<lambda>s. s\<lparr>display_id := Some 0\<rparr>)]])]"

definition initialize :: "unit act" where
  "initialize =
     seq [call (GuiRegisterHandler ''CameraSkill.ViewPortStatus'' ''handle_camera_status''),
          call (GuiRegisterHandler ''CameraSkill.EndProcess'' ''handle_camera_completed''),
          call (BusOn ''skill.camera.showcam'' ''handle_stream''),
          bnd (gets cams) (\<lambda>cs.
            foreach (map fst cs) (\<lambda>word. call (RegisterVocabulary word ''location''))),
          setup_cec]"

definition handle_camera_activity :: "string \<Rightarrow> unit act" where
  "handle_camera_activity activity =
     seq [bnd (gets save_folder) (\<lambda>f. call (GuiSet ''save_path'' (GStr f))),
          if activity = ''singleshot''
            then call (GuiSet ''singleshot_mode'' (GBool True)) else ret (),
          if activity = ''generic''
            then call (GuiSet ''singleshot_mode'' (GBool False)) else ret (),
          call (GuiShowPage ''Camera.qml'' True True)]"

definition take_single_photo :: "unit act" where
  "take_single_photo = handle_camera_activity ''singleshot''"

definition open_camera_app :: "unit act" where
  "open_camera_app = handle_camera_activity ''generic''"

definition handle_capture_single_shot :: "unit act" where
  "handle_capture_single_shot =
     seq [call (SpeakDialog ''acknowledge'' []),
          call (GuiSet ''singleshot_mode'' (GBool False)),
          take_single_photo]"

definition handle_open_camera :: "unit act" where
  "handle_open_camera =
     seq [call (SpeakDialog ''acknowledge'' []),
          call (GuiSet ''singleshot_mode'' (GBool False)),
          handle_camera_activity ''generic'']"

text \<open>
  \<open>handle_camera_completed\<close> reads \<open>self.display_status\<close> for the log line and again for
  the comparison; in \<open>self.remote.StandbyDevices(self.display_id)\<close> Python reads
  \<open>self.remote\<close> before the argument.
\<close>

definition handle_camera_completed :: "unit act" where
  "handle_camera_completed =
     seq [call (GuiRemovePage ''Camera.qml''),
          call GuiRelease,
          bnd (getattr ''display_status'' display_status) (\<lambda>st. call (Log DEBUG)),
          bnd (getattr ''display_status'' display_status) (\<lambda>st.
            if st = ''standby'' then
              bnd (getattr ''remote'' remote) (\<lambda>r.
              bnd (getattr ''display_id'' display_id) (\<lambda>i.
                seq [call (StandbyDevices i), call (Log DEBUG)]))
            else ret ())]"

definition handle_camera_status :: "message \<Rightarrow> unit act" where
  "handle_camera_status msg =
     (let current_status = data msg ''status'' in
      seq [if current_status = Some ''generic''
             then call (GuiSet ''singleshot_mode'' (GBool False)) else ret (),
           if current_status = Some ''imagetaken''
             then call (GuiSet ''singleshot_mode'' (GBool False)) else ret (),
           if current_status = Some ''singleshot''
             then call (GuiSet ''singleshot_mode'' (GBool True)) else ret ()])"

text \<open>
  \<open>show_stream\<close>. The test \<open>idle is not True\<close> holds for every integer; \<open>SetActiveSource\<close>
  is called with the library constant \<open>CEC_DEVICE_TYPE_RESERVED\<close>.
\<close>

definition show_stream :: "string option \<Rightarrow> idle \<Rightarrow> unit act" where
  "show_stream cam_url idl =
     seq [bnd (getattr ''remote'' remote) (\<lambda>r.
          bnd (getattr ''display_id'' display_id) (\<lambda>i.
          bnd (call_int (GetDevicePowerStatus i)) (\<lambda>code.
          bnd (getattr ''remote'' remote) (\<lambda>r'.
          bnd (call_str (PowerStatusToString code)) (\<lambda>status.
            setattr (\<lambda>s. s\<lparr>display_status := Some status\<rparr>)))))),
          bnd (getattr ''display_status'' display_status) (\<lambda>st. call (Log DEBUG)),
          bnd (getattr ''remote'' remote) (\<lambda>r.
          bnd (call_bool SetActiveSource) (\<lambda>active.
            if active then call (GuiShowUrl cam_url idl) else ret ())),
          case idl of
            IdleTrue \<Rightarrow> ret ()
          | IdleSecs n \<Rightarrow> seq [call (Sleep (n - 2)), handle_camera_completed]]"

text \<open>
  \<open>handle_get_stream\<close>. \<open>not cam_name\<close> holds when \<open>location\<close> is absent or the empty
  string; each \<open>return\<close> after a spoken dialog ends its branch.
\<close>

definition handle_get_stream :: "message \<Rightarrow> unit act" where
  "handle_get_stream msg =
     bnd (getattr ''display'' display) (\<lambda>d.
       if d then
         (let cam_name = data msg ''location'' in
          thn (call (Log DEBUG))
          (let idl = (if truthy (data msg ''view.short'') then IdleSecs 60 else IdleTrue) in
           thn (call (Log DEBUG))
           (case cam_name of
              None \<Rightarrow> call (SpeakDialog ''stream.not_specified'' [])
            | Some name \<Rightarrow>
                if name = [] then call (SpeakDialog ''stream.not_specified'' [])
                else
                  bnd (gets cams) (\<lambda>cs.
                    let cam_url = cams_get cs (Some name) in
                    if \<not> truthy cam_url
                      then call (SpeakDialog ''stream.no_config'' [(''cam'', name)])
                      else show_stream cam_url idl))))
       else call (SpeakDialog ''display.not.available'' []))"

definition handle_stream :: "message \<Rightarrow> idle \<Rightarrow> unit act" where
  "handle_stream msg idl =
     (let cam_name = data msg ''utterance'' in
      bnd (gets cams) (\<lambda>cs.
        let cam_url = cams_get cs cam_name in
        show_stream cam_url idl))"

definition stop :: "unit act" where
  "stop = handle_camera_completed"

text \<open>
  The operations the host can start on a constructed skill. The bus delivers only the
  message to \<open>handle_stream\<close>, so \<open>idle\<close> has its default value 60 there.
\<close>

datatype op =
    Initialize
  | SetupCec
  | HandleCaptureSingleShot
  | HandleOpenCamera
  | HandleCameraCompleted
  | HandleCameraStatus message
  | TakeSinglePhoto
  | OpenCameraApp
  | HandleCameraActivity string
  | HandleGetStream message
  | HandleStream message
  | ShowStream "string option" idle
  | Stop

fun run :: "op \<Rightarrow> unit act" where
  "run Initialize = initialize"
| "run SetupCec = setup_cec"
| "run HandleCaptureSingleShot = handle_capture_single_shot"
| "run HandleOpenCamera = handle_open_camera"
| "run HandleCameraCompleted = handle_camera_completed"
| "run (HandleCameraStatus msg) = handle_camera_status msg"
| "run TakeSinglePhoto = take_single_photo"
| "run OpenCameraApp = open_camera_app"
| "run (HandleCameraActivity activity) = handle_camera_activity activity"
| "run (HandleGetStream msg) = handle_get_stream msg"
| "run (HandleStream msg) = handle_stream msg (IdleSecs 60)"
| "run (ShowStream cam_url idl) = show_stream cam_url idl"
| "run Stop = stop"

section \<open>Properties of statements\<close>

text \<open>
  \<open>clean E tr ev\<close>: none of the calls \<open>ev\<close>, issued one after the other from the
  history \<open>tr\<close>, raises in the environment \<open>E\<close>.
\<close>

primrec clean :: "env \<Rightarrow> event list \<Rightarrow> event list \<Rightarrow> bool" where
  "clean E tr [] = True"
| "clean E tr (c # cs) = (raises E tr c = None \<and> clean E (tr @ [c]) cs)"

text \<open>
  How the result of a statement relates to the calls \<open>ev\<close> it issued: a callee's error is
  the error of the last call issued, and no call before it raised; in every other case
  no call raised.
\<close>

definition outcome :: "env \<Rightarrow> event list \<Rightarrow> event list \<Rightarrow> exn + 'a \<Rightarrow> bool" where
  "outcome E tr ev r =
     (case r of
        Inl (CalleeError e) \<Rightarrow> (\<exists>p c. ev = p @ [c] \<and> clean E tr p \<and> raises E (tr @ p) c = Some e)
      | Inl (AttributeError n) \<Rightarrow> clean E tr ev
      | Inr v \<Rightarrow> clean E tr ev)"

text \<open>
  A statement is \<open>sound f P\<close> when it leaves the projection \<open>f\<close> of the object as it was,
  only appends calls to the history, issues only calls that satisfy \<open>P\<close>, and hands
  errors on as \<open>outcome\<close> says.
\<close>

definition sound :: "(skill \<Rightarrow> 'b) \<Rightarrow> (event \<Rightarrow> bool) \<Rightarrow> 'a act \<Rightarrow> bool" where
  "sound f P m =
     (\<forall>E s tr. case m E (s, tr) of (r, s', tr') \<Rightarrow>
        f s' = f s \<and> (\<exists>ev. tr' = tr @ ev \<and> list_all P ev \<and> outcome E tr ev r))"

text \<open>An environment in which no call ever raises.\<close>

definition never_raises :: "env \<Rightarrow> bool" where
  "never_raises E = (\<forall>h c. raises E h c = None)"

text \<open>A statement is \<open>blind\<close> when it neither reads nor writes the attribute \<open>display\<close>.\<close>

definition blind :: "'a act \<Rightarrow> bool" where
  "blind m = (\<forall>E s tr d. m E (s\<lparr>display := d\<rparr>, tr) =
      (case m E (s, tr) of (r, s', tr') \<Rightarrow> (r, s'\<lparr>display := d\<rparr>, tr')))"

text \<open>The dialog a call speaks, if it is \<open>speak_dialog\<close>.\<close>

fun speaks :: "event \<Rightarrow> string option" where
  "speaks (SpeakDialog d dat) = Some d"
| "speaks c = None"

definition dialogs :: "string option set" where
  "dialogs = {None, Some ''acknowledge'', Some ''display.not.available'',
              Some ''stream.not_specified'', Some ''stream.no_config''}"

text \<open>
  The operations that reach \<open>show_stream\<close>, and the operations that contain a guard
  answered by a spoken fallback dialog.
\<close>

fun streams :: "op \<Rightarrow> bool" where
  "streams (HandleGetStream msg) = True"
| "streams (HandleStream msg) = True"
| "streams (ShowStream u i) = True"
| "streams other = False"

fun guarded :: "op \<Rightarrow> bool" where
  "guarded Initialize = True"
| "guarded SetupCec = True"
| "guarded (HandleGetStream msg) = True"
| "guarded other = False"

text \<open>The operations that run \<open>setup_cec\<close>.\<close>

fun sets_up :: "op \<Rightarrow> bool" where
  "sets_up Initialize = True"
| "sets_up SetupCec = True"
| "sets_up other = False"

text \<open>
  \<open>unset n s\<close>: \<open>n\<close> names one of the attributes that are assigned after construction, and
  that attribute does not exist in \<open>s\<close>. \<open>assigned s\<close>: all four of them exist. A statement
  is \<open>attrs_ok\<close> when it never removes an attribute, so that an object with all four
  keeps them, and when an attribute error it ends with names an attribute that does not
  exist in the object it leaves behind.
\<close>

definition unset :: "string \<Rightarrow> skill \<Rightarrow> bool" where
  "unset n s =
     (n = ''remote'' \<and> remote s = None \<or> n = ''display'' \<and> display s = None
      \<or> n = ''display_id'' \<and> display_id s = None
      \<or> n = ''display_status'' \<and> display_status s = None)"

definition assigned :: "skill \<Rightarrow> bool" where
  "assigned s =
     (remote s \<noteq> None \<and> display s \<noteq> None \<and> display_id s \<noteq> None
      \<and> display_status s \<noteq> None)"

definition attrs_ok :: "'a act \<Rightarrow> bool" where
  "attrs_ok m =
     (\<forall>E s tr. case m E (s, tr) of (r, s', tr') \<Rightarrow>
        (assigned s \<longrightarrow> assigned s') \<and> (\<forall>n. r = Inl (AttributeError n) \<longrightarrow> unset n s'))"

section \<open>Concrete environments, objects and messages\<close>

text \<open>
  \<open>quiet\<close>: one USB adapter, a television at logical address 0 that is switched on, and no
  call raises. \<open>tv_standby\<close>: the same with the television in standby. \<open>no_adapter\<close>: no
  adapter is detected. \<open>gui_down\<close>: \<open>show_url\<close> raises.
\<close>

definition usb_adapter :: adapter where
  "usb_adapter = \<lparr>strComName = ''/dev/ttyACM0'', iVendorId = 9544, iProductId = 4098\<rparr>"

fun quiet_bool :: "event \<Rightarrow> bool" where
  "quiet_bool (IsSet x) = (x = 0)"
| "quiet_bool c = True"

fun quiet_str :: "event \<Rightarrow> string" where
  "quiet_str (ExpandUser p) = ''/home/pi/Pictures''"
| "quiet_str c = ''on''"

definition quiet :: env where
  "quiet = \<lparr>raises = (\<lambda>h c. None), ret_bool = (\<lambda>h c. quiet_bool c), ret_int = (\<lambda>h c. 0),
             ret_str = (\<lambda>h c. quiet_str c), ret_adapters = (\<lambda>h c. [usb_adapter])\<rparr>"

definition tv_standby :: env where
  "tv_standby = quiet\<lparr>ret_str := (\<lambda>h c. ''standby'')\<rparr>"

definition no_adapter :: env where
  "no_adapter = quiet\<lparr>ret_adapters := (\<lambda>h c. [])\<rparr>"

fun gui_error :: "event \<Rightarrow> string option" where
  "gui_error (GuiShowUrl u i) = Some ''gui bridge down''"
| "gui_error c = None"

definition gui_down :: env where
  "gui_down = quiet\<lparr>raises := (\<lambda>h c. gui_error c)\<rparr>"

text \<open>
  \<open>fresh\<close> is the object the constructor returns for one configured camera, \<open>ready\<close> the
  object after \<open>initialize\<close> has found the adapter.
\<close>

definition door_cams :: "(string \<times> string) list" where
  "door_cams = [(''door'', ''rtsp://door'')]"

definition fresh :: skill where
  "fresh = \<lparr>camera_mode = None, cams = door_cams, save_folder = ''/home/pi/Pictures'',
             remote = None, display = None, display_id = None, display_status = None\<rparr>"

definition ready :: skill where
  "ready = fresh\<lparr>remote := Some (), display := Some True, display_id := Some 0\<rparr>"

text \<open>
  \<open>unavailable\<close> is the object after \<open>initialize\<close> has found no adapter, \<open>streamed\<close> the
  object after \<open>ready\<close> has shown a stream without a time limit.
\<close>

definition unavailable :: skill where
  "unavailable = fresh\<lparr>remote := Some (), display := Some False\<rparr>"

definition streamed :: skill where
  "streamed = ready\<lparr>display_status := Some ''on''\<rparr>"

definition door_request :: message where
  "door_request = Message (map_of [(''location'', ''door'')])"

definition garage_request :: message where
  "garage_request = Message (map_of [(''location'', ''garage''), (''view.short'', ''briefly'')])"

definition no_location :: message where
  "no_location = Message (map_of [])"

definition door_event :: message where
  "door_event = Message (map_of [(''utterance'', ''door'')])"

definition garage_event :: message where
  "garage_event = Message (map_of [(''utterance'', ''garage'')])"

section \<open>Rules for statements\<close>

lemma clean_append: "clean E tr (a @ b) = (clean E tr a \<and> clean E (tr @ a) b)"
  by (induction a arbitrary: tr) auto

lemma soundI:
  assumes "\<And>E s tr r s' tr'. m E (s, tr) = (r, s', tr') \<Longrightarrow>
     f s' = f s \<and> (\<exists>ev. tr' = tr @ ev \<and> list_all P ev \<and> outcome E tr ev r)"
  shows "sound f P m"
  unfolding sound_def using assms by (auto split: prod.splits)

lemma soundD:
  assumes "sound f P m" and "m E (s, tr) = (r, s', tr')"
  shows "f s' = f s \<and> (\<exists>ev. tr' = tr @ ev \<and> list_all P ev \<and> outcome E tr ev r)"
  using assms unfolding sound_def by (auto split: prod.splits dest!: spec)

lemma sound_ret: "sound f P (ret x)"
  by (rule soundI) (simp add: ret_def outcome_def)

lemma sound_answer: "P c \<Longrightarrow> sound f P (answer c v)"
  by (rule soundI) (auto simp: answer_def outcome_def split: option.splits)

lemma sound_call: "P c \<Longrightarrow> sound f P (call c)"
  using sound_answer[of P c f "()"] unfolding sound_def call_def by simp

lemma sound_call_bool: "P c \<Longrightarrow> sound f P (call_bool c)"
  by (rule soundI) (auto simp: call_bool_def answer_def outcome_def split: option.splits)

lemma sound_call_int: "P c \<Longrightarrow> sound f P (call_int c)"
  by (rule soundI) (auto simp: call_int_def answer_def outcome_def split: option.splits)

lemma sound_call_str: "P c \<Longrightarrow> sound f P (call_str c)"
  by (rule soundI) (auto simp: call_str_def answer_def outcome_def split: option.splits)

lemma sound_call_adapters: "P c \<Longrightarrow> sound f P (call_adapters c)"
  by (rule soundI) (auto simp: call_adapters_def answer_def outcome_def split: option.splits)

lemma sound_getattr: "sound f P (getattr n g)"
  by (rule soundI) (auto simp: getattr_def outcome_def split: option.splits)

lemma sound_gets: "sound f P (gets g)"
  by (rule soundI) (auto simp: gets_def outcome_def)

lemma sound_setattr: "(\<And>s. f (g s) = f s) \<Longrightarrow> sound f P (setattr g)"
  by (rule soundI) (auto simp: setattr_def outcome_def)

lemma sound_bnd:
  assumes m: "sound f P m" and k: "\<And>x. sound f P (k x)"
  shows "sound f P (bnd m k)"
proof (rule soundI)
  fix E s tr r s' tr'
  assume run: "bnd m k E (s, tr) = (r, s', tr')"
  obtain r1 s1 tr1 where m1: "m E (s, tr) = (r1, s1, tr1)"
    by (cases "m E (s, tr)") auto
  from soundD[OF m m1] obtain ev1 where
    f1: "f s1 = f s" and t1: "tr1 = tr @ ev1" and p1: "list_all P ev1" and o1: "outcome E tr ev1 r1"
    by blast
  show "f s' = f s \<and> (\<exists>ev. tr' = tr @ ev \<and> list_all P ev \<and> outcome E tr ev r)"
  proof (cases r1)
    case (Inl e)
    with run m1 have "r = Inl e" "s' = s1" "tr' = tr1" by (auto simp: bnd_def)
    with f1 t1 p1 o1 Inl show ?thesis by (auto simp: outcome_def)
  next
    case (Inr x)
    with run m1 have k1: "k x E (s1, tr1) = (r, s', tr')" by (auto simp: bnd_def)
    from soundD[OF k k1] obtain ev2 where
      f2: "f s' = f s1" and t2: "tr' = tr1 @ ev2" and p2: "list_all P ev2" and o2: "outcome E tr1 ev2 r"
      by blast
    from o1 Inr have c1: "clean E tr ev1" by (simp add: outcome_def)
    have "outcome E tr (ev1 @ ev2) r"
    proof (cases r)
      case (Inr y)
      with o2 c1 t1 show ?thesis by (simp add: outcome_def clean_append)
    next
      case (Inl e)
      show ?thesis
      proof (cases e)
        case (AttributeError n)
        with Inl o2 c1 t1 show ?thesis by (simp add: outcome_def clean_append)
      next
        case (CalleeError msg)
        with Inl o2 obtain p c where "ev2 = p @ [c]" "clean E tr1 p" "raises E (tr1 @ p) c = Some msg"
          by (auto simp: outcome_def)
        with c1 t1 have "ev1 @ ev2 = (ev1 @ p) @ [c] \<and> clean E tr (ev1 @ p) \<and> raises E (tr @ (ev1 @ p)) c = Some msg"
          by (simp add: clean_append)
        with Inl CalleeError show ?thesis unfolding outcome_def by (auto simp del: append_assoc)
      qed
    qed
    with f1 f2 t1 t2 p1 p2 show ?thesis by auto
  qed
qed

lemma sound_thn: "sound f P m \<Longrightarrow> sound f P k \<Longrightarrow> sound f P (thn m k)"
  unfolding thn_def by (rule sound_bnd)

lemma sound_seq_Nil: "sound f P (seq [])"
  by (simp add: sound_ret)

lemma sound_seq_Cons: "sound f P m \<Longrightarrow> sound f P (seq ms) \<Longrightarrow> sound f P (seq (m # ms))"
  by (simp add: sound_thn)

lemma sound_foreach: "(\<And>x. sound f P (g x)) \<Longrightarrow> sound f P (foreach xs g)"
  unfolding foreach_def by (induction xs) (simp_all add: sound_ret sound_thn)

lemma sound_if: "sound f P a \<Longrightarrow> sound f P b \<Longrightarrow> sound f P (if c then a else b)"
  by simp

lemma sound_case_idle:
  "sound f P a \<Longrightarrow> (\<And>n. sound f P (b n)) \<Longrightarrow> sound f P (case i of IdleTrue \<Rightarrow> a | IdleSecs n \<Rightarrow> b n)"
  by (cases i) simp_all

lemma sound_case_option:
  "sound f P a \<Longrightarrow> (\<And>n. sound f P (b n)) \<Longrightarrow> sound f P (case v of None \<Rightarrow> a | Some n \<Rightarrow> b n)"
  by (cases v) simp_all

lemmas sound_intros =
  sound_ret sound_call sound_call_bool sound_call_int sound_call_str sound_call_adapters
  sound_getattr sound_gets sound_setattr sound_bnd sound_thn sound_seq_Nil sound_seq_Cons
  sound_foreach sound_if sound_case_idle sound_case_option

lemma answer_quiet: "never_raises E \<Longrightarrow> answer c v E st = (Inr v, fst st, snd st @ [c])"
  by (simp add: answer_def never_raises_def)

lemmas act_defs = ret_def bnd_def thn_def call_def call_bool_def call_int_def call_str_def
  call_adapters_def getattr_def gets_def setattr_def

lemma completed_trace:
  assumes "never_raises E" "display_status s = Some st" "remote s = Some ()" "display_id s = Some i"
  shows "handle_camera_completed E (s, tr) =
     (Inr (), s, tr @ [GuiRemovePage ''Camera.qml'', GuiRelease, Log DEBUG]
        @ (if st = ''standby'' then [StandbyDevices i, Log DEBUG] else []))"
  using assms by (simp add: handle_camera_completed_def act_defs answer_quiet)

lemma show_stream_trace:
  assumes "never_raises E" "remote s = Some ()" "display_id s = Some i"
  shows "show_stream url idl E (s, tr) =
     (let code = ret_int E tr (GetDevicePowerStatus i);
          status = ret_str E (tr @ [GetDevicePowerStatus i]) (PowerStatusToString code);
          active = ret_bool E (tr @ [GetDevicePowerStatus i, PowerStatusToString code, Log DEBUG])
                     SetActiveSource
      in (Inr (), s\<lparr>display_status := Some status\<rparr>,
          tr @ [GetDevicePowerStatus i, PowerStatusToString code, Log DEBUG, SetActiveSource]
             @ (if active then [GuiShowUrl url idl] else [])
             @ (case idl of
                  IdleTrue \<Rightarrow> []
                | IdleSecs n \<Rightarrow>
                    [Sleep (n - 2), GuiRemovePage ''Camera.qml'', GuiRelease, Log DEBUG]
                    @ (if status = ''standby'' then [StandbyDevices i, Log DEBUG] else []))))"
  using assms
  by (simp add: show_stream_def handle_camera_completed_def act_defs answer_quiet Let_def
      split: idle.splits)

lemma never_raises_quiet: "never_raises quiet"
  by (simp add: never_raises_def quiet_def)

lemma sound_completed:
  assumes "\<And>c. speaks c = None \<Longrightarrow> P c"
  shows "sound f P handle_camera_completed"
  unfolding handle_camera_completed_def by (intro sound_intros assms; simp)

lemma sound_show_stream:
  assumes "\<And>c. speaks c = None \<Longrightarrow> P c" and "\<And>s v. f (s\<lparr>display_status := v\<rparr>) = f s"
  shows "sound f P (show_stream u i)"
  unfolding show_stream_def
  by (intro sound_intros sound_completed assms(1); simp add: assms)

lemma sound_probe:
  assumes "\<And>c. speaks c = None \<Longrightarrow> P c"
  shows "sound f P (probe_device x)"
  unfolding probe_device_def by (intro sound_intros assms; simp)

lemma sound_setup:
  assumes "\<And>c. speaks c = None \<or> speaks c = Some ''display.not.available'' \<Longrightarrow> P c"
    and "\<And>s v. f (s\<lparr>remote := v\<rparr>) = f s" and "\<And>s v. f (s\<lparr>display := v\<rparr>) = f s"
    and "\<And>s v. f (s\<lparr>display_id := v\<rparr>) = f s"
  shows "sound f P setup_cec"
  unfolding setup_cec_def
  by (intro sound_intros sound_probe assms(1); simp add: assms)

lemma sound_initialize:
  assumes "\<And>c. speaks c = None \<or> speaks c = Some ''display.not.available'' \<Longrightarrow> P c"
    and "\<And>s v. f (s\<lparr>remote := v\<rparr>) = f s" and "\<And>s v. f (s\<lparr>display := v\<rparr>) = f s"
    and "\<And>s v. f (s\<lparr>display_id := v\<rparr>) = f s"
  shows "sound f P initialize"
  unfolding initialize_def
  by (intro sound_intros sound_setup assms; simp)

lemma sound_activity:
  assumes "\<And>c. speaks c = None \<Longrightarrow> P c"
  shows "sound f P (handle_camera_activity a)"
  unfolding handle_camera_activity_def by (intro sound_intros assms; simp)

lemma sound_status:
  assumes "\<And>c. speaks c = None \<Longrightarrow> P c"
  shows "sound f P (handle_camera_status msg)"
  unfolding handle_camera_status_def Let_def by (intro sound_intros assms; simp)

lemma sound_capture:
  assumes "\<And>c. speaks c = None \<or> speaks c = Some ''acknowledge'' \<Longrightarrow> P c"
  shows "sound f P handle_capture_single_shot"
  unfolding handle_capture_single_shot_def take_single_photo_def
  by (intro sound_intros sound_activity assms; simp)

lemma sound_open:
  assumes "\<And>c. speaks c = None \<or> speaks c = Some ''acknowledge'' \<Longrightarrow> P c"
  shows "sound f P handle_open_camera"
  unfolding handle_open_camera_def
  by (intro sound_intros sound_activity assms; simp)

lemma sound_stream:
  assumes "\<And>c. speaks c = None \<Longrightarrow> P c" and "\<And>s v. f (s\<lparr>display_status := v\<rparr>) = f s"
  shows "sound f P (handle_stream msg i)"
  unfolding handle_stream_def Let_def
  by (intro sound_intros sound_show_stream assms; simp)

lemma sound_get_stream:
  assumes "\<And>c. speaks c \<in> {None, Some ''display.not.available'', Some ''stream.not_specified'',
                Some ''stream.no_config''} \<Longrightarrow> P c"
    and "\<And>s v. f (s\<lparr>display_status := v\<rparr>) = f s"
  shows "sound f P (handle_get_stream msg)"
  unfolding handle_get_stream_def Let_def
  by (intro sound_intros sound_show_stream assms; simp)

lemmas sound_handlers =
  sound_initialize sound_setup sound_capture sound_open sound_completed sound_status
  sound_activity sound_get_stream sound_stream sound_show_stream

lemma sound_run: "sound cams (\<lambda>c. speaks c \<in> dialogs) (run op)"
  by (cases op; simp add: take_single_photo_def open_camera_app_def stop_def;
      rule sound_handlers; auto simp: dialogs_def)

lemma sound_run_unguarded:
  "\<not> guarded op \<Longrightarrow> sound cams (\<lambda>c. speaks c = None \<or> speaks c = Some ''acknowledge'') (run op)"
  by (cases op; simp add: take_single_photo_def open_camera_app_def stop_def;
      rule sound_handlers; auto)

lemma sound_run_status:
  "\<not> streams op \<Longrightarrow> sound display_status (\<lambda>c. True) (run op)"
  by (cases op; simp add: take_single_photo_def open_camera_app_def stop_def;
      rule sound_handlers; auto)

lemma outcome_first_raise:
  assumes o: "outcome E tr ev r" and ev: "ev = p @ c # q" and r: "raises E (tr @ p) c = Some e"
  shows "q = [] \<and> r = Inl (CalleeError e)"
proof -
  have not_clean: "\<not> clean E tr ev"
    using ev r by (simp add: clean_append)
  with o obtain e' p' c' where r': "r = Inl (CalleeError e')" and ev': "ev = p' @ [c']"
    and cl: "clean E tr p'" and rs: "raises E (tr @ p') c' = Some e'"
    by (auto simp: outcome_def split: sum.splits exn.splits)
  show ?thesis
  proof (cases q rule: rev_cases)
    case Nil
    with ev ev' have "p' = p" "c' = c" by auto
    with r rs r' Nil show ?thesis by simp
  next
    case (snoc q' x)
    with ev ev' have "p' = p @ c # q'" by auto
    with cl have "raises E (tr @ p) c = None" by (simp add: clean_append)
    with r show ?thesis by simp
  qed
qed

lemma never_raises_standby: "never_raises tv_standby"
  by (simp add: never_raises_def tv_standby_def quiet_def)

lemma never_raises_no_adapter: "never_raises no_adapter"
  by (simp add: never_raises_def no_adapter_def quiet_def)

lemma foreach_calls:
  "never_raises E \<Longrightarrow> foreach xs (\<lambda>x. call (c x)) E (s, tr) = (Inr (), s, tr @ map c xs)"
  by (induction xs arbitrary: tr) (simp_all add: foreach_def act_defs answer_quiet)

lemma setup_no_adapter:
  assumes "never_raises E"
    and "ret_adapters E (tr @ [CecConfiguration, CecAddDeviceType, CecCreate]) DetectAdapters = []"
  shows "setup_cec E (s, tr) =
     (Inr (), s\<lparr>remote := Some (), display := Some False\<rparr>,
      tr @ [CecConfiguration, CecAddDeviceType, CecCreate, DetectAdapters, Log WARNING,
            SpeakDialog ''display.not.available'' []])"
  using assms by (simp add: setup_cec_def foreach_def act_defs answer_quiet)

lemma get_stream_unavailable:
  assumes "display s = Some False"
  shows "snd (handle_get_stream msg E (s, tr)) = (s, tr @ [SpeakDialog ''display.not.available'' []])"
  using assms by (simp add: handle_get_stream_def act_defs answer_def split: option.splits)

lemma get_stream_not_specified:
  assumes "never_raises E" "display s = Some True" "\<not> truthy (data msg ''location'')"
  shows "handle_get_stream msg E (s, tr) =
     (Inr (), s, tr @ [Log DEBUG, Log DEBUG, SpeakDialog ''stream.not_specified'' []])"
  using assms
  by (simp add: handle_get_stream_def act_defs answer_quiet truthy_def Let_def split: option.splits)

lemma get_stream_no_config:
  assumes "never_raises E" "display s = Some True" "data msg ''location'' = Some name" "name \<noteq> []"
    "\<not> truthy (map_of (cams s) name)"
  shows "handle_get_stream msg E (s, tr) =
     (Inr (), s, tr @ [Log DEBUG, Log DEBUG, SpeakDialog ''stream.no_config'' [(''cam'', name)]])"
  using assms
  by (simp add: handle_get_stream_def act_defs answer_quiet cams_get_def Let_def)

lemma get_stream_shows:
  assumes "never_raises E" "display s = Some True" "data msg ''location'' = Some name" "name \<noteq> []"
    "truthy (map_of (cams s) name)"
  shows "handle_get_stream msg E (s, tr) =
     show_stream (map_of (cams s) name)
       (if truthy (data msg ''view.short'') then IdleSecs 60 else IdleTrue)
       E (s, tr @ [Log DEBUG, Log DEBUG])"
  using assms
  by (simp add: handle_get_stream_def act_defs answer_quiet cams_get_def Let_def)

lemma stream_is_show_stream:
  "run (HandleStream msg) E (s, tr) =
     show_stream (cams_get (cams s) (data msg ''utterance'')) (IdleSecs 60) E (s, tr)"
  by (simp add: handle_stream_def act_defs Let_def)

lemma blind_ret: "blind (ret x)"
  by (simp add: blind_def ret_def)

lemma blind_call: "blind (call c)"
  by (simp add: blind_def call_def answer_def split: option.splits)

lemma blind_call_bool: "blind (call_bool c)"
  by (simp add: blind_def call_bool_def answer_def split: option.splits)

lemma blind_call_int: "blind (call_int c)"
  by (simp add: blind_def call_int_def answer_def split: option.splits)

lemma blind_call_str: "blind (call_str c)"
  by (simp add: blind_def call_str_def answer_def split: option.splits)

lemma blind_getattr: "(\<And>s d. g (s\<lparr>display := d\<rparr>) = g s) \<Longrightarrow> blind (getattr n g)"
  by (simp add: blind_def getattr_def split: option.splits)

lemma blind_gets: "(\<And>s d. g (s\<lparr>display := d\<rparr>) = g s) \<Longrightarrow> blind (gets g)"
  by (simp add: blind_def gets_def)

lemma blind_setattr:
  "(\<And>s d. g (s\<lparr>display := d\<rparr>) = (g s)\<lparr>display := d\<rparr>) \<Longrightarrow> blind (setattr g)"
  by (simp add: blind_def setattr_def)

lemma blind_bnd:
  assumes "blind m" and "\<And>x. blind (k x)"
  shows "blind (bnd m k)"
  using assms unfolding blind_def bnd_def
  by (auto split: prod.splits sum.splits)

lemma blind_thn: "blind m \<Longrightarrow> blind k \<Longrightarrow> blind (thn m k)"
  unfolding thn_def by (rule blind_bnd)

lemma blind_seq_Nil: "blind (seq [])"
  by (simp add: blind_ret)

lemma blind_seq_Cons: "blind m \<Longrightarrow> blind (seq ms) \<Longrightarrow> blind (seq (m # ms))"
  by (simp add: blind_thn)

lemma blind_if: "blind a \<Longrightarrow> blind b \<Longrightarrow> blind (if c then a else b)"
  by simp

lemma blind_case_idle:
  "blind a \<Longrightarrow> (\<And>n. blind (b n)) \<Longrightarrow> blind (case i of IdleTrue \<Rightarrow> a | IdleSecs n \<Rightarrow> b n)"
  by (cases i) simp_all

lemmas blind_intros =
  blind_ret blind_call blind_call_bool blind_call_int blind_call_str blind_getattr blind_gets
  blind_setattr blind_bnd blind_thn blind_seq_Nil blind_seq_Cons blind_if blind_case_idle

lemma blind_completed: "blind handle_camera_completed"
  unfolding handle_camera_completed_def by (intro blind_intros; simp)

lemma blind_show_stream: "blind (show_stream u idl)"
  unfolding show_stream_def by (intro blind_intros blind_completed; simp)

lemma blind_stream: "blind (handle_stream msg idl)"
  unfolding handle_stream_def Let_def by (intro blind_intros blind_show_stream; simp)

lemma sound_run_display_id:
  "\<not> sets_up op \<Longrightarrow> sound display_id (\<lambda>c. True) (run op)"
  by (cases op; simp add: take_single_photo_def open_camera_app_def stop_def;
      rule sound_handlers; auto)

lemma sound_skill_init:
  "sound (\<lambda>s. (display_status s, display_id s)) (\<lambda>c. True) (skill_init cfg)"
  unfolding skill_init_def by (intro sound_intros; simp)

lemma created_unset:
  assumes "create_skill cfg E tr = (Inr s0, tr1)"
  shows "display_status s0 = None \<and> display_id s0 = None"
proof -
  obtain r s' tr' where r: "skill_init cfg E (blank, tr) = (r, s', tr')"
    by (cases "skill_init cfg E (blank, tr)") auto
  with assms have "s' = s0"
    by (auto simp: create_skill_def split: sum.splits)
  with soundD[OF sound_skill_init r] show ?thesis
    by (simp add: blank_def)
qed

lemma completed_unset_status:
  assumes "display_status s = None"
  shows "isl (fst (handle_camera_completed E (s, tr)))"
    and "never_raises E \<Longrightarrow> handle_camera_completed E (s, tr) =
      (Inl (AttributeError ''display_status''), s, tr @ [GuiRemovePage ''Camera.qml'', GuiRelease])"
  using assms
  by (auto simp: handle_camera_completed_def act_defs answer_def never_raises_def
      split: option.splits)

lemma completed_unset_id:
  assumes "never_raises E" "display_status s = Some ''standby''" "remote s = Some ()"
    "display_id s = None"
  shows "handle_camera_completed E (s, tr) =
      (Inl (AttributeError ''display_id''), s,
       tr @ [GuiRemovePage ''Camera.qml'', GuiRelease, Log DEBUG])"
  using assms
  by (simp add: handle_camera_completed_def act_defs answer_quiet)

lemma upt_16: "[0..<16] = [0, 1, 2, 3, 4, 5, 6, 7, 8, 9, 10, 11, 12, 13, 14, 15]"
  by (simp add: upt_rec)

lemma create_fresh:
  "create_skill (Some door_cams) quiet [] =
     (Inr fresh, [SuperInit ''CameraSkill'', ExpandUser ''~/Pictures'', IsDir ''/home/pi/Pictures''])"
  by (simp add: create_skill_def skill_init_def act_defs answer_def quiet_def blank_def fresh_def)

lemma initialize_ready: "fst (snd (initialize quiet (fresh, []))) = ready"
  by (simp add: initialize_def setup_cec_def probe_device_def foreach_def upt_16 act_defs
      answer_def quiet_def fresh_def ready_def door_cams_def usb_adapter_def)

lemma seq_call_head:
  "never_raises E \<Longrightarrow> seq (call c # ms) E (s, tr) = seq ms E (s, tr @ [c])"
  by (simp add: thn_def bnd_def call_def answer_quiet)

lemma initialize_subscribes:
  assumes "never_raises E"
  shows "\<exists>ev. snd (snd (initialize E (s, tr))) =
     tr @ [GuiRegisterHandler ''CameraSkill.ViewPortStatus'' ''handle_camera_status'',
           GuiRegisterHandler ''CameraSkill.EndProcess'' ''handle_camera_completed'',
           BusOn ''skill.camera.showcam'' ''handle_stream''] @ ev"
proof -
  let ?rest = "seq [bnd (gets cams) (\<lambda>cs.
                 foreach (map fst cs) (\<lambda>word. call (RegisterVocabulary word ''location''))),
               setup_cec]"
  let ?tr = "tr @ [GuiRegisterHandler ''CameraSkill.ViewPortStatus'' ''handle_camera_status'',
           GuiRegisterHandler ''CameraSkill.EndProcess'' ''handle_camera_completed'',
           BusOn ''skill.camera.showcam'' ''handle_stream'']"
  have eq: "initialize E (s, tr) = ?rest E (s, ?tr)"
    unfolding initialize_def by (simp only: seq_call_head[OF assms] append_assoc append.simps)
  have "sound cams (\<lambda>c. True) ?rest"
    by (intro sound_intros sound_setup; simp)
  from soundD[OF this, of E s ?tr] obtain ev where "snd (snd (?rest E (s, ?tr))) = ?tr @ ev"
    by (cases "?rest E (s, ?tr)") auto
  with eq show ?thesis by auto
qed

lemma show_stream_silent:
  "\<exists>ev. snd (snd (show_stream u i E (s, tr))) = tr @ ev \<and> list_all (\<lambda>c. speaks c = None) ev"
proof -
  have "sound cams (\<lambda>c. speaks c = None) (show_stream u i)"
    by (rule sound_show_stream) simp_all
  from soundD[OF this, of E s tr] show ?thesis
    by (cases "show_stream u i E (s, tr)") auto
qed

lemma run_dialogs:
  "\<exists>ev. snd (snd (run op E (s, tr))) = tr @ ev \<and> list_all (\<lambda>c. speaks c \<in> dialogs) ev
        \<and> (\<not> guarded op \<longrightarrow>
             list_all (\<lambda>c. speaks c = None \<or> speaks c = Some ''acknowledge'') ev)"
proof (cases "guarded op")
  case True
  with soundD[OF sound_run, of op E s tr] show ?thesis
    by (cases "run op E (s, tr)") auto
next
  case False
  obtain r s' tr' where r: "run op E (s, tr) = (r, s', tr')"
    by (cases "run op E (s, tr)") auto
  from soundD[OF sound_run_unguarded[OF False] r] obtain ev where
    ev: "tr' = tr @ ev" "list_all (\<lambda>c. speaks c = None \<or> speaks c = Some ''acknowledge'') ev"
    by blast
  from ev(2) have "list_all (\<lambda>c. speaks c \<in> dialogs) ev"
    by (auto simp: list_all_iff dialogs_def)
  with ev r show ?thesis by auto
qed

lemma seq_setattr_head: "seq (setattr g # ms) E (s, tr) = seq ms E (g s, tr)"
  by (simp add: thn_def bnd_def setattr_def)

lemma seq_single: "seq [m] E st = m E st"
  by (cases "m E st") (auto simp: thn_def bnd_def ret_def split: sum.splits)

lemma bnd_call_adapters:
  "never_raises E \<Longrightarrow> bnd (call_adapters c) k E (s, tr) = k (ret_adapters E tr c) E (s, tr @ [c])"
  by (simp add: bnd_def call_adapters_def answer_quiet)

lemma setup_with_adapter:
  assumes "never_raises E"
    and "ret_adapters E (tr @ [CecConfiguration, CecAddDeviceType, CecCreate]) DetectAdapters \<noteq> []"
  shows "\<exists>ev. snd (snd (setup_cec E (s, tr))) = tr @ ev \<and> list_all (\<lambda>c. speaks c = None) ev"
proof -
  let ?tr = "tr @ [CecConfiguration, CecAddDeviceType, CecCreate]"
  define ads where "ads = ret_adapters E ?tr DetectAdapters"
  let ?found = "seq [call (Log DEBUG),
                     setattr (\<lambda>s. s\<lparr>display := Some True\<rparr>),
                     bnd (call_bool (CecOpen (strComName (ads ! 0)))) (\<lambda>opened.
                       if opened then call (Log INFO) else call (Log ERROR)),
                     call GetActiveDevices,
                     foreach [0..<16] probe_device,
                     setattr (\<lambda>s. s\<lparr>display_id := Some 0\<rparr>)]"
  let ?rest = "seq [foreach ads (\<lambda>a. call (Log DEBUG)),
                 if length ads = 0 then
                   seq [call (Log WARNING),
                        call (SpeakDialog ''display.not.available'' []),
                        setattr (\<lambda>s. s\<lparr>display := Some False\<rparr>)]
                 else ?found]"
  have eq: "setup_cec E (s, tr) = ?rest E (s\<lparr>remote := Some ()\<rparr>, ?tr @ [DetectAdapters])"
    unfolding setup_cec_def ads_def
    by (simp only: seq_call_head[OF assms(1)] seq_setattr_head seq_single
        bnd_call_adapters[OF assms(1)] append_assoc append.simps)
  have "ads \<noteq> []" using assms(2) by (simp add: ads_def)
  then have "?rest = seq [foreach ads (\<lambda>a. call (Log DEBUG)), ?found]"
    by simp
  moreover have "sound cams (\<lambda>c. speaks c = None) (seq [foreach ads (\<lambda>a. call (Log DEBUG)), ?found])"
    by (intro sound_intros sound_probe; simp)
  ultimately have "sound cams (\<lambda>c. speaks c = None) ?rest"
    by simp
  from soundD[OF this, of E "s\<lparr>remote := Some ()\<rparr>" "?tr @ [DetectAdapters]"]
  obtain ev where "snd (snd (?rest E (s\<lparr>remote := Some ()\<rparr>, ?tr @ [DetectAdapters])))
      = (?tr @ [DetectAdapters]) @ ev" "list_all (\<lambda>c. speaks c = None) ev"
    by (cases "?rest E (s\<lparr>remote := Some ()\<rparr>, ?tr @ [DetectAdapters])") auto
  with eq have "snd (snd (setup_cec E (s, tr))) =
      tr @ ([CecConfiguration, CecAddDeviceType, CecCreate, DetectAdapters] @ ev)
      \<and> list_all (\<lambda>c. speaks c = None)
           ([CecConfiguration, CecAddDeviceType, CecCreate, DetectAdapters] @ ev)"
    by simp
  then show ?thesis by blast
qed

lemma get_stream_silent:
  assumes "display s = Some True" "data msg ''location'' = Some name" "name \<noteq> []"
    "truthy (map_of (cams s) name)"
  shows "\<exists>ev. snd (snd (handle_get_stream msg E (s, tr))) = tr @ ev
            \<and> list_all (\<lambda>c. speaks c = None) ev"
proof -
  let ?idl = "if truthy (data msg ''view.short'') then IdleSecs 60 else IdleTrue"
  let ?show = "show_stream (map_of (cams s) name) ?idl"
  have eq: "handle_get_stream msg E (s, tr) =
      (case raises E tr (Log DEBUG) of
         Some e \<Rightarrow> (Inl (CalleeError e), s, tr @ [Log DEBUG])
       | None \<Rightarrow>
          (case raises E (tr @ [Log DEBUG]) (Log DEBUG) of
             Some e \<Rightarrow> (Inl (CalleeError e), s, tr @ [Log DEBUG, Log DEBUG])
           | None \<Rightarrow> ?show E (s, tr @ [Log DEBUG, Log DEBUG])))"
    using assms
    by (simp add: handle_get_stream_def act_defs answer_def cams_get_def Let_def
        split: option.splits)
  from show_stream_silent[of "map_of (cams s) name" ?idl E s "tr @ [Log DEBUG, Log DEBUG]"]
  obtain ev where ev: "snd (snd (?show E (s, tr @ [Log DEBUG, Log DEBUG])))
      = tr @ ([Log DEBUG, Log DEBUG] @ ev)" "list_all (\<lambda>c. speaks c = None) ev"
    by auto
  show ?thesis
  proof (cases "raises E tr (Log DEBUG)")
    case (Some e)
    with eq have "snd (snd (handle_get_stream msg E (s, tr))) = tr @ [Log DEBUG]" by simp
    then show ?thesis by (intro exI[of _ "[Log DEBUG]"]) simp
  next
    case None
    show ?thesis
    proof (cases "raises E (tr @ [Log DEBUG]) (Log DEBUG)")
      case (Some e)
      with None eq have "snd (snd (handle_get_stream msg E (s, tr))) = tr @ [Log DEBUG, Log DEBUG]"
        by simp
      then show ?thesis by (intro exI[of _ "[Log DEBUG, Log DEBUG]"]) simp
    next
      case n2: None
      with None eq ev have "snd (snd (handle_get_stream msg E (s, tr)))
          = tr @ ([Log DEBUG, Log DEBUG] @ ev)" by simp
      with ev(2) show ?thesis by (intro exI[of _ "[Log DEBUG, Log DEBUG] @ ev"]) simp
    qed
  qed
qed

lemma unset_simps:
  "unset ''remote'' s = (remote s = None)"
  "unset ''display'' s = (display s = None)"
  "unset ''display_id'' s = (display_id s = None)"
  "unset ''display_status'' s = (display_status s = None)"
  by (simp_all add: unset_def)

lemma attrs_okD:
  assumes "attrs_ok m" and "m E (s, tr) = (r, s', tr')"
  shows "(assigned s \<longrightarrow> assigned s') \<and> (\<forall>n. r = Inl (AttributeError n) \<longrightarrow> unset n s')"
proof -
  from assms(1) have "\<And>E s tr. case m E (s, tr) of (r, s', tr') \<Rightarrow>
        (assigned s \<longrightarrow> assigned s') \<and> (\<forall>n. r = Inl (AttributeError n) \<longrightarrow> unset n s')"
    unfolding attrs_ok_def by simp
  from this[where E=E and s=s and tr=tr] assms(2) show ?thesis by simp
qed

lemma attrs_ok_ret: "attrs_ok (ret x)"
  by (simp add: attrs_ok_def ret_def)

lemma attrs_ok_call: "attrs_ok (call c)"
  by (simp add: attrs_ok_def call_def answer_def split: option.splits)

lemma attrs_ok_call_bool: "attrs_ok (call_bool c)"
  by (simp add: attrs_ok_def call_bool_def answer_def split: option.splits)

lemma attrs_ok_call_int: "attrs_ok (call_int c)"
  by (simp add: attrs_ok_def call_int_def answer_def split: option.splits)

lemma attrs_ok_call_str: "attrs_ok (call_str c)"
  by (simp add: attrs_ok_def call_str_def answer_def split: option.splits)

lemma attrs_ok_call_adapters: "attrs_ok (call_adapters c)"
  by (simp add: attrs_ok_def call_adapters_def answer_def split: option.splits)

lemma attrs_ok_getattr: "(\<And>s. g s = None \<Longrightarrow> unset n s) \<Longrightarrow> attrs_ok (getattr n g)"
  by (simp add: attrs_ok_def getattr_def split: option.splits)

lemma attrs_ok_gets: "attrs_ok (gets g)"
  by (simp add: attrs_ok_def gets_def)

lemma attrs_ok_setattr: "(\<And>s. assigned s \<Longrightarrow> assigned (g s)) \<Longrightarrow> attrs_ok (setattr g)"
  by (simp add: attrs_ok_def setattr_def)

lemma attrs_ok_bnd:
  assumes m: "attrs_ok m" and k: "\<And>x. attrs_ok (k x)"
  shows "attrs_ok (bnd m k)"
  unfolding attrs_ok_def
proof (intro allI)
  fix E s tr
  obtain r1 s1 tr1 where m1: "m E (s, tr) = (r1, s1, tr1)"
    by (cases "m E (s, tr)") auto
  note a1 = attrs_okD[OF m m1]
  show "case bnd m k E (s, tr) of (r, s', tr') \<Rightarrow>
         (assigned s \<longrightarrow> assigned s') \<and> (\<forall>n. r = Inl (AttributeError n) \<longrightarrow> unset n s')"
  proof (cases r1)
    case (Inl e)
    with m1 have "bnd m k E (s, tr) = (Inl e, s1, tr1)" by (simp add: bnd_def)
    with a1 Inl show ?thesis by simp
  next
    case (Inr x)
    obtain r2 s2 tr2 where k1: "k x E (s1, tr1) = (r2, s2, tr2)"
      by (cases "k x E (s1, tr1)") auto
    with m1 Inr have "bnd m k E (s, tr) = (r2, s2, tr2)" by (simp add: bnd_def)
    with a1 attrs_okD[OF k k1] show ?thesis by simp
  qed
qed

lemma attrs_ok_thn: "attrs_ok m \<Longrightarrow> attrs_ok k \<Longrightarrow> attrs_ok (thn m k)"
  unfolding thn_def by (rule attrs_ok_bnd)

lemma attrs_ok_seq_Nil: "attrs_ok (seq [])"
  by (simp add: attrs_ok_ret)

lemma attrs_ok_seq_Cons: "attrs_ok m \<Longrightarrow> attrs_ok (seq ms) \<Longrightarrow> attrs_ok (seq (m # ms))"
  by (simp add: attrs_ok_thn)

lemma attrs_ok_foreach: "(\<And>x. attrs_ok (g x)) \<Longrightarrow> attrs_ok (foreach xs g)"
  unfolding foreach_def by (induction xs) (simp_all add: attrs_ok_ret attrs_ok_thn)

lemma attrs_ok_if: "attrs_ok a \<Longrightarrow> attrs_ok b \<Longrightarrow> attrs_ok (if c then a else b)"
  by simp

lemma attrs_ok_case_idle:
  "attrs_ok a \<Longrightarrow> (\<And>n. attrs_ok (b n)) \<Longrightarrow>
   attrs_ok (case i of IdleTrue \<Rightarrow> a | IdleSecs n \<Rightarrow> b n)"
  by (cases i) simp_all

lemma attrs_ok_case_option:
  "attrs_ok a \<Longrightarrow> (\<And>n. attrs_ok (b n)) \<Longrightarrow>
   attrs_ok (case v of None \<Rightarrow> a | Some n \<Rightarrow> b n)"
  by (cases v) simp_all

lemmas attrs_ok_intros =
  attrs_ok_ret attrs_ok_call attrs_ok_call_bool attrs_ok_call_int attrs_ok_call_str
  attrs_ok_call_adapters attrs_ok_getattr attrs_ok_gets attrs_ok_setattr attrs_ok_bnd
  attrs_ok_thn attrs_ok_seq_Nil attrs_ok_seq_Cons attrs_ok_foreach attrs_ok_if
  attrs_ok_case_idle attrs_ok_case_option

lemma attrs_ok_completed: "attrs_ok handle_camera_completed"
  unfolding handle_camera_completed_def
  by (intro attrs_ok_intros; simp add: unset_simps assigned_def)

lemma attrs_ok_show_stream: "attrs_ok (show_stream u i)"
  unfolding show_stream_def
  by (intro attrs_ok_intros attrs_ok_completed; simp add: unset_simps assigned_def)

lemma attrs_ok_setup: "attrs_ok setup_cec"
  unfolding setup_cec_def probe_device_def
  by (intro attrs_ok_intros; simp add: unset_simps assigned_def)

lemma attrs_ok_initialize: "attrs_ok initialize"
  unfolding initialize_def
  by (intro attrs_ok_intros attrs_ok_setup; simp add: unset_simps assigned_def)

lemma attrs_ok_activity: "attrs_ok (handle_camera_activity a)"
  unfolding handle_camera_activity_def
  by (intro attrs_ok_intros; simp add: unset_simps assigned_def)

lemma attrs_ok_status: "attrs_ok (handle_camera_status msg)"
  unfolding handle_camera_status_def Let_def
  by (intro attrs_ok_intros; simp add: unset_simps assigned_def)

lemma attrs_ok_capture: "attrs_ok handle_capture_single_shot"
  unfolding handle_capture_single_shot_def take_single_photo_def
  by (intro attrs_ok_intros attrs_ok_activity; simp add: unset_simps assigned_def)

lemma attrs_ok_open: "attrs_ok handle_open_camera"
  unfolding handle_open_camera_def
  by (intro attrs_ok_intros attrs_ok_activity; simp add: unset_simps assigned_def)

lemma attrs_ok_stream: "attrs_ok (handle_stream msg i)"
  unfolding handle_stream_def Let_def
  by (intro attrs_ok_intros attrs_ok_show_stream; simp add: unset_simps assigned_def)

lemma attrs_ok_get_stream: "attrs_ok (handle_get_stream msg)"
  unfolding handle_get_stream_def Let_def
  by (intro attrs_ok_intros attrs_ok_show_stream; simp add: unset_simps assigned_def)

lemma attrs_ok_run: "attrs_ok (run op)"
  by (cases op)
     (simp_all add: take_single_photo_def open_camera_app_def stop_def
        attrs_ok_initialize attrs_ok_setup attrs_ok_capture attrs_ok_open attrs_ok_completed
        attrs_ok_status attrs_ok_activity attrs_ok_get_stream attrs_ok_stream
        attrs_ok_show_stream)

lemma assigned_not_unset: "assigned s \<Longrightarrow> \<not> unset n s"
  by (auto simp: assigned_def unset_def)

lemma show_stream_unset_id:
  assumes "remote s = Some ()" "display_id s = None"
  shows "show_stream u idl E (s, tr) = (Inl (AttributeError ''display_id''), s, tr)"
  using assms by (simp add: show_stream_def act_defs)

lemma show_stream_unset_remote:
  assumes "remote s = None"
  shows "show_stream u idl E (s, tr) = (Inl (AttributeError ''remote''), s, tr)"
  using assms by (simp add: show_stream_def act_defs)

lemma unmatched_utterance:
  assumes "\<forall>u. data msg ''utterance'' = Some u \<longrightarrow> u \<notin> fst ` set (cams s)"
  shows "cams_get (cams s) (data msg ''utterance'') = None"
  using assms by (auto simp: cams_get_def map_of_eq_None_iff split: option.splits)

lemma initialize_unavailable:
  "initialize no_adapter (fresh, []) =
     (Inr (), unavailable,
      [GuiRegisterHandler ''CameraSkill.ViewPortStatus'' ''handle_camera_status'',
       GuiRegisterHandler ''CameraSkill.EndProcess'' ''handle_camera_completed'',
       BusOn ''skill.camera.showcam'' ''handle_stream'',
       RegisterVocabulary ''door'' ''location'',
       CecConfiguration, CecAddDeviceType, CecCreate, DetectAdapters, Log WARNING,
       SpeakDialog ''display.not.available'' []])"
  by (simp add: initialize_def setup_cec_def foreach_def act_defs answer_def no_adapter_def
      quiet_def fresh_def unavailable_def door_cams_def)

lemma call_some: "raises E tr c = Some e \<Longrightarrow> call c E (s, tr) = (Inl (CalleeError e), s, tr @ [c])"
  by (simp add: call_def answer_def)

lemma call_none: "raises E tr c = None \<Longrightarrow> call c E (s, tr) = (Inr (), s, tr @ [c])"
  by (simp add: call_def answer_def)

lemma seq_calls_prefix:
  assumes "seq (map call cs @ ms) E (s, tr) = (r, s', tr')"
  shows "(\<exists>k e. r = Inl (CalleeError e) \<and> s' = s \<and> tr' = tr @ take k cs)
       \<or> seq ms E (s, tr @ cs) = (r, s', tr')"
  using assms
proof (induction cs arbitrary: tr)
  case Nil
  then show ?case by simp
next
  case (Cons c cs)
  show ?case
  proof (cases "raises E tr c")
    case (Some e)
    with Cons.prems have "r = Inl (CalleeError e) \<and> s' = s \<and> tr' = tr @ take 1 (c # cs)"
      by (auto simp: thn_def bnd_def call_some)
    then show ?thesis by blast
  next
    case None
    with Cons.prems have "seq (map call cs @ ms) E (s, tr @ [c]) = (r, s', tr')"
      by (simp add: thn_def bnd_def call_none)
    from Cons.IH[OF this] show ?thesis
    proof
      assume "\<exists>k e. r = Inl (CalleeError e) \<and> s' = s \<and> tr' = (tr @ [c]) @ take k cs"
      then obtain k e where "r = Inl (CalleeError e)" "s' = s" "tr' = (tr @ [c]) @ take k cs"
        by blast
      then have "r = Inl (CalleeError e) \<and> s' = s \<and> tr' = tr @ take (Suc k) (c # cs)"
        by simp
      then show ?thesis by blast
    next
      assume "seq ms E (s, (tr @ [c]) @ cs) = (r, s', tr')"
      then show ?thesis by simp
    qed
  qed
qed

lemma foreach_calls_cases:
  "foreach xs (\<lambda>x. call (c x)) E (s, tr) = (Inr (), s, tr @ map c xs)
   \<or> (\<exists>e k. foreach xs (\<lambda>x. call (c x)) E (s, tr) = (Inl (CalleeError e), s, tr @ take k (map c xs)))"
proof (induction xs arbitrary: tr)
  case Nil
  then show ?case by (simp add: foreach_def ret_def)
next
  case (Cons x xs)
  show ?case
  proof (cases "raises E tr (c x)")
    case (Some e)
    then have "foreach (x # xs) (\<lambda>x. call (c x)) E (s, tr)
        = (Inl (CalleeError e), s, tr @ take 1 (map c (x # xs)))"
      by (simp add: foreach_def thn_def bnd_def call_def answer_def)
    then show ?thesis by blast
  next
    case None
    then have step: "foreach (x # xs) (\<lambda>x. call (c x)) E (s, tr)
        = foreach xs (\<lambda>x. call (c x)) E (s, tr @ [c x])"
      by (simp add: foreach_def thn_def bnd_def call_def answer_def)
    from Cons.IH[of "tr @ [c x]"] show ?thesis
    proof
      assume "foreach xs (\<lambda>x. call (c x)) E (s, tr @ [c x]) = (Inr (), s, (tr @ [c x]) @ map c xs)"
      with step show ?thesis by simp
    next
      assume "\<exists>e k. foreach xs (\<lambda>x. call (c x)) E (s, tr @ [c x])
                = (Inl (CalleeError e), s, (tr @ [c x]) @ take k (map c xs))"
      then obtain e k where "foreach xs (\<lambda>x. call (c x)) E (s, tr @ [c x])
                = (Inl (CalleeError e), s, (tr @ [c x]) @ take k (map c xs))"
        by blast
      with step have "foreach (x # xs) (\<lambda>x. call (c x)) E (s, tr)
                = (Inl (CalleeError e), s, tr @ take (Suc k) (map c (x # xs)))"
        by simp
      then show ?thesis by blast
    qed
  qed
qed

lemma seq_head_cases:
  "seq (m # ms) E st =
     (case m E st of (Inl e, st') \<Rightarrow> (Inl e, st') | (Inr x, st') \<Rightarrow> seq ms E st')"
  by (simp add: thn_def bnd_def)

lemma seq_head_ok: "m E st = (Inr (), st') \<Longrightarrow> seq (m # ms) E st = seq ms E st'"
  by (simp add: thn_def bnd_def)

lemma seq_head_err: "m E st = (Inl e, st') \<Longrightarrow> seq (m # ms) E st = (Inl e, st')"
  by (simp add: thn_def bnd_def)

lemma list_all_take: "list_all P xs \<Longrightarrow> list_all P (take n xs)"
  by (auto simp: list_all_iff dest: in_set_takeD)

lemma setup_speech:
  "\<exists>ev. snd (snd (setup_cec E (s, tr))) = tr @ ev
     \<and> list_all (\<lambda>c. speaks c \<noteq> None \<longrightarrow>
           c = SpeakDialog ''display.not.available'' []
           \<and> ret_adapters E (tr @ [CecConfiguration, CecAddDeviceType, CecCreate])
               DetectAdapters = []) ev"
proof -
  let ?cs = "[CecConfiguration, CecAddDeviceType, CecCreate]"
  define ads where "ads = ret_adapters E (tr @ ?cs) DetectAdapters"
  define Q where "Q = (\<lambda>c. speaks c \<noteq> None \<longrightarrow>
                        c = SpeakDialog ''display.not.available'' [] \<and> ads = [])"
  define none where "none =
    seq [call (Log WARNING), call (SpeakDialog ''display.not.available'' []),
         setattr (\<lambda>s. s\<lparr>display := Some False\<rparr>)]"
  define found where "found = (\<lambda>adapters :: adapter list.
    seq [call (Log DEBUG),
         setattr (\<lambda>s. s\<lparr>display := Some True\<rparr>),
         bnd (call_bool (CecOpen (strComName (adapters ! 0)))) (\<lambda>opened.
           if opened then call (Log INFO) else call (Log ERROR)),
         call GetActiveDevices,
         foreach [0..<16] probe_device,
         setattr (\<lambda>s. s\<lparr>display_id := Some 0\<rparr>)])"
  define k where "k = (\<lambda>adapters.
    seq [foreach adapters (\<lambda>a. call (Log DEBUG)),
         if length adapters = 0 then none else found adapters])"
  let ?ms = "[setattr (\<lambda>s. s\<lparr>remote := Some ()\<rparr>), bnd (call_adapters DetectAdapters) k]"
  have def: "setup_cec = seq (map call ?cs @ ?ms)"
    unfolding setup_cec_def k_def none_def found_def by simp
  have Qk: "sound cams Q (k ads)"
  proof (cases "ads = []")
    case True
    have "sound cams Q (seq [foreach ads (\<lambda>a. call (Log DEBUG)), none])"
      unfolding none_def by (intro sound_intros; simp add: Q_def True)
    with True show ?thesis by (simp add: k_def)
  next
    case False
    have "sound cams Q (seq [foreach ads (\<lambda>a. call (Log DEBUG)), found ads])"
      unfolding found_def by (intro sound_intros sound_probe; simp add: Q_def)
    with False show ?thesis by (simp add: k_def)
  qed
  have Qcs: "list_all Q ?cs" and Qcs4: "list_all Q (?cs @ [DetectAdapters])"
    by (simp_all add: Q_def)
  obtain r s' tr' where run: "setup_cec E (s, tr) = (r, s', tr')"
    by (cases "setup_cec E (s, tr)") auto
  have "\<exists>ev. tr' = tr @ ev \<and> list_all Q ev"
    using seq_calls_prefix[OF run[unfolded def]]
  proof
    assume "\<exists>k e. r = Inl (CalleeError e) \<and> s' = s \<and> tr' = tr @ take k ?cs"
    then obtain n where n: "tr' = tr @ take n ?cs" by blast
    from list_all_take[OF Qcs, of n] n show ?thesis by blast
  next
    assume "seq ?ms E (s, tr @ ?cs) = (r, s', tr')"
    then have bnd: "bnd (call_adapters DetectAdapters) k E (s\<lparr>remote := Some ()\<rparr>, tr @ ?cs)
        = (r, s', tr')"
      by (simp only: seq_setattr_head seq_single)
    show ?thesis
    proof (cases "raises E (tr @ ?cs) DetectAdapters")
      case (Some e)
      with bnd have "tr' = tr @ (?cs @ [DetectAdapters])"
        by (simp add: bnd_def call_adapters_def answer_def)
      with Qcs4 show ?thesis by blast
    next
      case None
      with bnd have "k ads E (s\<lparr>remote := Some ()\<rparr>, tr @ ?cs @ [DetectAdapters]) = (r, s', tr')"
        by (simp add: bnd_def call_adapters_def answer_def ads_def)
      from soundD[OF Qk this] obtain ev where
        ev: "tr' = (tr @ ?cs @ [DetectAdapters]) @ ev" "list_all Q ev" by blast
      from ev(2) Qcs4 have "list_all Q ((?cs @ [DetectAdapters]) @ ev)"
        by simp
      moreover from ev(1) have "tr' = tr @ ((?cs @ [DetectAdapters]) @ ev)" by simp
      ultimately show ?thesis by blast
    qed
  qed
  with run show ?thesis by (simp add: Q_def ads_def)
qed

lemma initialize_setup:
  assumes "never_raises E"
  shows "initialize E (s, tr) =
     setup_cec E (s, tr @ [GuiRegisterHandler ''CameraSkill.ViewPortStatus'' ''handle_camera_status'',
                           GuiRegisterHandler ''CameraSkill.EndProcess'' ''handle_camera_completed'',
                           BusOn ''skill.camera.showcam'' ''handle_stream'']
                        @ map (\<lambda>word. RegisterVocabulary word ''location'') (map fst (cams s)))"
proof -
  let ?regs = "[GuiRegisterHandler ''CameraSkill.ViewPortStatus'' ''handle_camera_status'',
                GuiRegisterHandler ''CameraSkill.EndProcess'' ''handle_camera_completed'',
                BusOn ''skill.camera.showcam'' ''handle_stream'']"
  let ?vocab = "bnd (gets cams) (\<lambda>cs.
                  foreach (map fst cs) (\<lambda>word. call (RegisterVocabulary word ''location'')))"
  let ?words = "map (\<lambda>word. RegisterVocabulary word ''location'') (map fst (cams s))"
  have "initialize E (s, tr) = seq [?vocab, setup_cec] E (s, tr @ ?regs)"
    unfolding initialize_def by (simp only: seq_call_head[OF assms] append_assoc append.simps)
  moreover have "?vocab E (s, tr @ ?regs) = (Inr (), s, (tr @ ?regs) @ ?words)"
    by (simp add: bnd_def gets_def foreach_calls[OF assms])
  then have "seq [?vocab, setup_cec] E (s, tr @ ?regs) = seq [setup_cec] E (s, (tr @ ?regs) @ ?words)"
    by (rule seq_head_ok)
  ultimately show ?thesis by (simp only: seq_single append_assoc)
qed

lemma initialize_speech:
  "\<exists>ev. snd (snd (initialize E (s, tr))) = tr @ ev
     \<and> list_all (\<lambda>c. speaks c \<noteq> None \<longrightarrow>
           c = SpeakDialog ''display.not.available'' []
           \<and> ret_adapters E
               (tr @ [GuiRegisterHandler ''CameraSkill.ViewPortStatus'' ''handle_camera_status'',
                      GuiRegisterHandler ''CameraSkill.EndProcess'' ''handle_camera_completed'',
                      BusOn ''skill.camera.showcam'' ''handle_stream'']
                   @ map (\<lambda>word. RegisterVocabulary word ''location'') (map fst (cams s))
                   @ [CecConfiguration, CecAddDeviceType, CecCreate])
               DetectAdapters = []) ev"
proof -
  let ?regs = "[GuiRegisterHandler ''CameraSkill.ViewPortStatus'' ''handle_camera_status'',
                GuiRegisterHandler ''CameraSkill.EndProcess'' ''handle_camera_completed'',
                BusOn ''skill.camera.showcam'' ''handle_stream'']"
  let ?vocab = "bnd (gets cams) (\<lambda>cs.
                  foreach (map fst cs) (\<lambda>word. call (RegisterVocabulary word ''location'')))"
  define words where
    "words = map (\<lambda>word. RegisterVocabulary word ''location'') (map fst (cams s))"
  define H where "H = tr @ ?regs @ words @ [CecConfiguration, CecAddDeviceType, CecCreate]"
  define Q where "Q = (\<lambda>c. speaks c \<noteq> None \<longrightarrow>
                        c = SpeakDialog ''display.not.available'' []
                        \<and> ret_adapters E H DetectAdapters = [])"
  let ?ms = "[?vocab, setup_cec]"
  have def: "initialize = seq (map call ?regs @ ?ms)"
    by (simp add: initialize_def)
  have Qregs: "list_all Q ?regs"
    by (simp add: Q_def)
  have Qwords: "list_all Q words"
    by (simp add: Q_def words_def list_all_iff)
  have H: "((tr @ ?regs) @ words) @ [CecConfiguration, CecAddDeviceType, CecCreate] = H"
    by (simp add: H_def)
  obtain r s' tr' where run: "initialize E (s, tr) = (r, s', tr')"
    by (cases "initialize E (s, tr)") auto
  have "\<exists>ev. tr' = tr @ ev \<and> list_all Q ev"
    using seq_calls_prefix[OF run[unfolded def]]
  proof
    assume "\<exists>k e. r = Inl (CalleeError e) \<and> s' = s \<and> tr' = tr @ take k ?regs"
    then obtain n where n: "tr' = tr @ take n ?regs" by blast
    from list_all_take[OF Qregs, of n] n show ?thesis by blast
  next
    assume cont: "seq ?ms E (s, tr @ ?regs) = (r, s', tr')"
    have vocab: "?vocab E (s, tr @ ?regs) =
        foreach (map fst (cams s)) (\<lambda>word. call (RegisterVocabulary word ''location''))
          E (s, tr @ ?regs)"
      by (simp add: bnd_def gets_def)
    from foreach_calls_cases[of "map fst (cams s)" "\<lambda>word. RegisterVocabulary word ''location''"
        E s "tr @ ?regs"]
    show ?thesis
    proof
      assume "foreach (map fst (cams s)) (\<lambda>word. call (RegisterVocabulary word ''location''))
                E (s, tr @ ?regs) =
              (Inr (), s, (tr @ ?regs)
                 @ map (\<lambda>word. RegisterVocabulary word ''location'') (map fst (cams s)))"
      with vocab have v: "?vocab E (s, tr @ ?regs) = (Inr (), s, (tr @ ?regs) @ words)"
        by (simp only: words_def)
      from v have "seq ?ms E (s, tr @ ?regs) = seq [setup_cec] E (s, (tr @ ?regs) @ words)"
        by (rule seq_head_ok)
      then have "seq ?ms E (s, tr @ ?regs) = setup_cec E (s, (tr @ ?regs) @ words)"
        by (simp only: seq_single)
      with cont have st: "setup_cec E (s, (tr @ ?regs) @ words) = (r, s', tr')"
        by simp
      from setup_speech[of E s "(tr @ ?regs) @ words"] st obtain ev where
        ev: "tr' = ((tr @ ?regs) @ words) @ ev"
        and sp: "list_all (\<lambda>c. speaks c \<noteq> None \<longrightarrow>
           c = SpeakDialog ''display.not.available'' []
           \<and> ret_adapters E (((tr @ ?regs) @ words) @ [CecConfiguration, CecAddDeviceType, CecCreate])
               DetectAdapters = []) ev"
        by auto
      from sp have "list_all Q ev"
        by (simp only: H Q_def)
      with Qregs Qwords have "list_all Q (?regs @ words @ ev)"
        by simp
      moreover from ev have "tr' = tr @ (?regs @ words @ ev)" by simp
      ultimately show ?thesis by blast
    next
      assume "\<exists>e k. foreach (map fst (cams s)) (\<lambda>word. call (RegisterVocabulary word ''location''))
                E (s, tr @ ?regs) =
              (Inl (CalleeError e), s, (tr @ ?regs)
                 @ take k (map (\<lambda>word. RegisterVocabulary word ''location'') (map fst (cams s))))"
      then obtain e n where "foreach (map fst (cams s))
                (\<lambda>word. call (RegisterVocabulary word ''location''))
                E (s, tr @ ?regs) =
              (Inl (CalleeError e), s, (tr @ ?regs)
                 @ take n (map (\<lambda>word. RegisterVocabulary word ''location'') (map fst (cams s))))"
        by blast
      with vocab have v: "?vocab E (s, tr @ ?regs)
          = (Inl (CalleeError e), s, (tr @ ?regs) @ take n words)"
        by (simp only: words_def)
      from v have "seq ?ms E (s, tr @ ?regs) = (Inl (CalleeError e), s, (tr @ ?regs) @ take n words)"
        by (rule seq_head_err)
      with cont have "tr' = (tr @ ?regs) @ take n words" by simp
      then have "tr' = tr @ (?regs @ take n words)" by simp
      moreover from Qregs list_all_take[OF Qwords, of n]
      have "list_all Q (?regs @ take n words)"
        by simp
      ultimately show ?thesis by blast
    qed
  qed
  with run show ?thesis by (simp add: Q_def H_def words_def)
qed

lemma list_all_prefix: "prefix ev xs \<Longrightarrow> list_all P xs \<Longrightarrow> list_all P ev"
  by (auto simp: list_all_iff dest: set_mono_prefix)

lemma get_stream_unset:
  assumes "display s = None"
  shows "handle_get_stream msg E (s, tr) = (Inl (AttributeError ''display''), s, tr)"
  using assms by (simp add: handle_get_stream_def bnd_def getattr_def)

lemma get_stream_not_specified_any:
  assumes "display s = Some True" "\<not> truthy (data msg ''location'')"
  shows "\<exists>ev. snd (snd (handle_get_stream msg E (s, tr))) = tr @ ev
     \<and> prefix ev [Log DEBUG, Log DEBUG, SpeakDialog ''stream.not_specified'' []]"
  using assms
  by (auto simp: handle_get_stream_def act_defs answer_def truthy_def Let_def
      split: option.splits)

lemma get_stream_no_config_any:
  assumes "display s = Some True" "data msg ''location'' = Some name" "name \<noteq> []"
    "\<not> truthy (map_of (cams s) name)"
  shows "\<exists>ev. snd (snd (handle_get_stream msg E (s, tr))) = tr @ ev
     \<and> prefix ev [Log DEBUG, Log DEBUG, SpeakDialog ''stream.no_config'' [(''cam'', name)]]"
  using assms
  by (auto simp: handle_get_stream_def act_defs answer_def cams_get_def Let_def
      split: option.splits)

lemma get_stream_speech:
  "\<exists>ev. snd (snd (handle_get_stream msg E (s, tr))) = tr @ ev
     \<and> list_all (\<lambda>c. speaks c \<noteq> None \<longrightarrow>
           c = SpeakDialog ''display.not.available'' [] \<and> display s = Some False
           \<or> c = SpeakDialog ''stream.not_specified'' [] \<and> display s = Some True
               \<and> \<not> truthy (data msg ''location'')
           \<or> (\<exists>name. c = SpeakDialog ''stream.no_config'' [(''cam'', name)]
                 \<and> display s = Some True \<and> data msg ''location'' = Some name \<and> name \<noteq> []
                 \<and> \<not> truthy (map_of (cams s) name))) ev"
  (is "\<exists>ev. _ = tr @ ev \<and> list_all ?G ev")
proof (cases "display s")
  case None
  from get_stream_unset[OF this, of msg E tr] show ?thesis by simp
next
  case (Some d)
  show ?thesis
  proof (cases d)
    case False
    with Some have f: "display s = Some False" by simp
    from get_stream_unavailable[OF f, of msg E tr]
    have "snd (snd (handle_get_stream msg E (s, tr))) = tr @ [SpeakDialog ''display.not.available'' []]"
      by simp
    moreover have "list_all ?G [SpeakDialog ''display.not.available'' []]"
      using f by simp
    ultimately show ?thesis by blast
  next
    case True
    with Some have t: "display s = Some True" by simp
    show ?thesis
    proof (cases "truthy (data msg ''location'')")
      case False
      from get_stream_not_specified_any[OF t False, of E tr] obtain ev where
        ev: "snd (snd (handle_get_stream msg E (s, tr))) = tr @ ev"
        "prefix ev [Log DEBUG, Log DEBUG, SpeakDialog ''stream.not_specified'' []]"
        by blast
      have "list_all ?G [Log DEBUG, Log DEBUG, SpeakDialog ''stream.not_specified'' []]"
        using t False by simp
      from list_all_prefix[OF ev(2) this] ev(1) show ?thesis by blast
    next
      case tl: True
      then obtain name where n: "data msg ''location'' = Some name" "name \<noteq> []"
        by (auto simp: truthy_def split: option.splits)
      show ?thesis
      proof (cases "truthy (map_of (cams s) name)")
        case False
        from get_stream_no_config_any[OF t n False, of E tr] obtain ev where
          ev: "snd (snd (handle_get_stream msg E (s, tr))) = tr @ ev"
          "prefix ev [Log DEBUG, Log DEBUG, SpeakDialog ''stream.no_config'' [(''cam'', name)]]"
          by blast
        have "list_all ?G [Log DEBUG, Log DEBUG, SpeakDialog ''stream.no_config'' [(''cam'', name)]]"
          using t n False by simp
        from list_all_prefix[OF ev(2) this] ev(1) show ?thesis by blast
      next
        case True
        from get_stream_silent[OF t n True, of E tr] obtain ev where
          ev: "snd (snd (handle_get_stream msg E (s, tr))) = tr @ ev"
          "list_all (\<lambda>c. speaks c = None) ev"
          by blast
        from ev(2) have "list_all ?G ev" by (simp add: list_all_iff)
        with ev(1) show ?thesis by blast
      qed
    qed
  qed
qed

lemma streamed_reachable:
  "fst (snd (run (ShowStream (Some ''rtsp://door'') IdleTrue) quiet (ready, []))) = streamed"
  using show_stream_trace[OF never_raises_quiet, of ready 0 "Some ''rtsp://door''" IdleTrue "[]"]
  by (simp add: Let_def quiet_def ready_def fresh_def streamed_def)

section \<open>The configured cameras\<close>

text \<open>
  Claim C2. The mapping of camera names to URLs is read-only at run time: whatever
  operation runs on a constructed skill (\<open>initialize\<close>, every intent handler, the bus
  handler, \<open>show_stream\<close>, \<open>handle_camera_completed\<close>, \<open>stop\<close>), in whatever environment
  and whether it returns or raises, the attribute \<open>cams\<close> is afterwards what it was before.
\<close>

theorem cams_read_only: "cams (fst (snd (run op E (s, tr)))) = cams s"
  using soundD[OF sound_run, of op E s tr] by (cases "run op E (s, tr)") auto

theorem cams_read_only_witness:
  "cams (fst (snd (run (HandleGetStream door_request) quiet (ready, [])))) = door_cams"
  using cams_read_only[of "HandleGetStream door_request" quiet ready "[]"]
  by (simp add: ready_def fresh_def)

section \<open>Errors of callees\<close>

text \<open>
  Claim C7, as stated, fails in its last part: an operation can end in an error that no
  callee raised. After \<open>initialize\<close> has found the adapter, \<open>stop\<close> ends in the attribute
  error for \<open>display_status\<close> although both calls it issued returned.
\<close>

theorem attribute_error_without_callee_error:
  "fst (snd (initialize quiet (fresh, []))) = ready
   \<and> run Stop quiet (ready, []) =
       (Inl (AttributeError ''display_status''), ready,
        [GuiRemovePage ''Camera.qml'', GuiRelease])
   \<and> raises quiet [] (GuiRemovePage ''Camera.qml'') = None
   \<and> raises quiet [GuiRemovePage ''Camera.qml''] GuiRelease = None"
  using initialize_ready
  by (simp add: stop_def handle_camera_completed_def act_defs answer_def quiet_def ready_def
      fresh_def)

text \<open>
  Claim C7, amended. No handler catches an error. For every operation, every environment
  and every object: the operation only appends calls to the history; if a call it issued
  raised, that call is the last one it issued (nothing is done after it, so there is no
  fallback) and the operation ends with that very error; an operation that ends with a
  callee's error ends with the error of the last call it issued. An operation that ends
  with an attribute error names an attribute that has not been assigned, and when
  \<open>remote\<close>, \<open>display\<close>, \<open>display_id\<close> and \<open>display_status\<close> are all assigned, every operation
  either completes or ends with the callee's error.
\<close>

theorem errors_propagate:
  assumes "run op E (s, tr) = (r, s', tr')"
  shows "\<exists>ev. tr' = tr @ ev
     \<and> (\<forall>p c q e. ev = p @ c # q \<and> raises E (tr @ p) c = Some e
           \<longrightarrow> q = [] \<and> r = Inl (CalleeError e))
     \<and> (\<forall>e. r = Inl (CalleeError e)
           \<longrightarrow> (\<exists>p c. ev = p @ [c] \<and> raises E (tr @ p) c = Some e))
     \<and> (\<forall>n. r = Inl (AttributeError n) \<longrightarrow> unset n s')
     \<and> (assigned s \<longrightarrow> r = Inr () \<or> (\<exists>e. r = Inl (CalleeError e)))"
proof -
  from soundD[OF sound_run assms] obtain ev where
    t: "tr' = tr @ ev" and o: "outcome E tr ev r" by blast
  have a: "\<forall>p c q e. ev = p @ c # q \<and> raises E (tr @ p) c = Some e
           \<longrightarrow> q = [] \<and> r = Inl (CalleeError e)"
    using outcome_first_raise[OF o] by blast
  have b: "\<forall>e. r = Inl (CalleeError e)
           \<longrightarrow> (\<exists>p c. ev = p @ [c] \<and> raises E (tr @ p) c = Some e)"
    using o by (auto simp: outcome_def)
  note ok = attrs_okD[OF attrs_ok_run assms]
  have c: "\<forall>n. r = Inl (AttributeError n) \<longrightarrow> unset n s'"
    using ok by simp
  have d: "assigned s \<longrightarrow> r = Inr () \<or> (\<exists>e. r = Inl (CalleeError e))"
  proof
    assume "assigned s"
    with ok have s': "assigned s'" by simp
    show "r = Inr () \<or> (\<exists>e. r = Inl (CalleeError e))"
    proof (cases r)
      case (Inr u)
      then show ?thesis by simp
    next
      case (Inl x)
      show ?thesis
      proof (cases x)
        case (AttributeError n)
        with Inl c have "unset n s'" by simp
        with assigned_not_unset[OF s'] show ?thesis by simp
      next
        case (CalleeError e)
        with Inl show ?thesis by simp
      qed
    qed
  qed
  from t a b c d show ?thesis by blast
qed

theorem errors_propagate_witness:
  "run (ShowStream (Some ''rtsp://door'') IdleTrue) gui_down (streamed, []) =
     (Inl (CalleeError ''gui bridge down''), streamed,
      [GetDevicePowerStatus 0, PowerStatusToString 0, Log DEBUG, SetActiveSource,
       GuiShowUrl (Some ''rtsp://door'') IdleTrue])"
proof -
  obtain r s' tr' where
    run: "run (ShowStream (Some ''rtsp://door'') IdleTrue) gui_down (streamed, []) = (r, s', tr')"
    by (cases "run (ShowStream (Some ''rtsp://door'') IdleTrue) gui_down (streamed, [])") auto
  from errors_propagate[OF run] obtain ev where ev: "tr' = [] @ ev"
    and first: "\<forall>p c q e. ev = p @ c # q \<and> raises gui_down ([] @ p) c = Some e
                  \<longrightarrow> q = [] \<and> r = Inl (CalleeError e)"
    and dich: "assigned streamed \<longrightarrow> r = Inr () \<or> (\<exists>e. r = Inl (CalleeError e))"
    by blast
  have "assigned streamed"
    by (simp add: assigned_def streamed_def ready_def fresh_def)
  with dich have "r = Inr () \<or> (\<exists>e. r = Inl (CalleeError e))" by simp
  have tr': "tr' = [GetDevicePowerStatus 0, PowerStatusToString 0, Log DEBUG, SetActiveSource,
       GuiShowUrl (Some ''rtsp://door'') IdleTrue]"
    and s': "s' = streamed"
    using run
    by (simp_all add: show_stream_def act_defs answer_def gui_down_def quiet_def streamed_def
        ready_def fresh_def)
  have "raises gui_down ([] @ [GetDevicePowerStatus 0, PowerStatusToString 0, Log DEBUG,
          SetActiveSource]) (GuiShowUrl (Some ''rtsp://door'') IdleTrue) = Some ''gui bridge down''"
    by (simp add: gui_down_def quiet_def)
  with first ev tr' have "r = Inl (CalleeError ''gui bridge down'')"
    by (metis append_Cons append_Nil)
  with run tr' s' show ?thesis by simp
qed

section \<open>The guarded failure paths\<close>

text \<open>
  Claim C1, as stated, fails: with the display available, a request through
  \<open>handle_get_stream\<close> that names no camera is answered by the spoken dialog
  \<open>stream.not_specified\<close> and nothing else, which is a guard of neither of the two kinds
  the claim allows.
\<close>

theorem third_fallback_guard:
  "display ready = Some True
   \<and> data no_location ''location'' = None
   \<and> run (HandleGetStream no_location) quiet (ready, []) =
       (Inr (), ready, [Log DEBUG, Log DEBUG, SpeakDialog ''stream.not_specified'' []])"
  by (simp add: handle_get_stream_def act_defs answer_def quiet_def ready_def fresh_def
      no_location_def)

text \<open>
  Claim C1, amended. The handlers guard exactly three failure conditions by a spoken
  fallback dialog. Every operation speaks only \<open>acknowledge\<close>, \<open>display.not.available\<close>,
  \<open>stream.not_specified\<close> or \<open>stream.no_config\<close>, and every operation other than
  \<open>initialize\<close>, \<open>setup_cec\<close> and \<open>handle_get_stream\<close> speaks at most \<open>acknowledge\<close>. In
  \<open>setup_cec\<close> (calls returning) an empty list of adapters is answered by
  \<open>display.not.available\<close> and the flag \<open>display\<close> set to false, and a non-empty list by no
  dialog. In \<open>handle_get_stream\<close> a false flag is answered by \<open>display.not.available\<close>; with
  the flag true, a missing or empty camera name by \<open>stream.not_specified\<close>, a camera name
  without a (non-empty) URL by \<open>stream.no_config\<close>, and a camera name with a URL by no
  dialog at all; with the flag not yet assigned it raises the attribute error and speaks
  nothing. \<open>initialize\<close> (calls returning) is the three registrations and the vocabulary
  calls followed by \<open>setup_cec\<close>. Conversely, in every environment: a dialog spoken by
  \<open>setup_cec\<close> or \<open>initialize\<close> is \<open>display.not.available\<close> and the detection had returned
  the empty list, and a dialog spoken by \<open>handle_get_stream\<close> is one of the three above
  under its own condition.
\<close>

theorem three_fallback_guards:
  "(\<exists>ev. snd (snd (run op E (s, tr))) = tr @ ev \<and> list_all (\<lambda>c. speaks c \<in> dialogs) ev
        \<and> (\<not> guarded op \<longrightarrow>
             list_all (\<lambda>c. speaks c = None \<or> speaks c = Some ''acknowledge'') ev))
   \<and> (never_raises E \<longrightarrow>
        (if ret_adapters E (tr @ [CecConfiguration, CecAddDeviceType, CecCreate]) DetectAdapters = []
         then setup_cec E (s, tr) =
                (Inr (), s\<lparr>remote := Some (), display := Some False\<rparr>,
                 tr @ [CecConfiguration, CecAddDeviceType, CecCreate, DetectAdapters,
                       Log WARNING, SpeakDialog ''display.not.available'' []])
         else (\<exists>ev. snd (snd (setup_cec E (s, tr))) = tr @ ev
                  \<and> list_all (\<lambda>c. speaks c = None) ev)))
   \<and> (display s = Some False \<longrightarrow>
        snd (handle_get_stream msg E (s, tr)) = (s, tr @ [SpeakDialog ''display.not.available'' []]))
   \<and> (never_raises E \<and> display s = Some True \<and> \<not> truthy (data msg ''location'') \<longrightarrow>
        handle_get_stream msg E (s, tr) =
          (Inr (), s, tr @ [Log DEBUG, Log DEBUG, SpeakDialog ''stream.not_specified'' []]))
   \<and> (\<forall>name. never_raises E \<and> display s = Some True \<and> data msg ''location'' = Some name
          \<and> name \<noteq> [] \<and> \<not> truthy (map_of (cams s) name) \<longrightarrow>
        handle_get_stream msg E (s, tr) =
          (Inr (), s, tr @ [Log DEBUG, Log DEBUG,
                            SpeakDialog ''stream.no_config'' [(''cam'', name)]]))
   \<and> (\<forall>name. display s = Some True \<and> data msg ''location'' = Some name
          \<and> name \<noteq> [] \<and> truthy (map_of (cams s) name) \<longrightarrow>
        (\<exists>ev. snd (snd (handle_get_stream msg E (s, tr))) = tr @ ev
             \<and> list_all (\<lambda>c. speaks c = None) ev))
   \<and> (display s = None \<longrightarrow>
        handle_get_stream msg E (s, tr) = (Inl (AttributeError ''display''), s, tr))
   \<and> (never_raises E \<longrightarrow>
        initialize E (s, tr) =
          setup_cec E
            (s, tr @ [GuiRegisterHandler ''CameraSkill.ViewPortStatus'' ''handle_camera_status'',
                      GuiRegisterHandler ''CameraSkill.EndProcess'' ''handle_camera_completed'',
                      BusOn ''skill.camera.showcam'' ''handle_stream'']
                   @ map (\<lambda>word. RegisterVocabulary word ''location'') (map fst (cams s))))
   \<and> (\<exists>ev. snd (snd (setup_cec E (s, tr))) = tr @ ev
        \<and> list_all (\<lambda>c. speaks c \<noteq> None \<longrightarrow>
              c = SpeakDialog ''display.not.available'' []
              \<and> ret_adapters E (tr @ [CecConfiguration, CecAddDeviceType, CecCreate])
                  DetectAdapters = []) ev)
   \<and> (\<exists>ev. snd (snd (initialize E (s, tr))) = tr @ ev
        \<and> list_all (\<lambda>c. speaks c \<noteq> None \<longrightarrow>
              c = SpeakDialog ''display.not.available'' []
              \<and> ret_adapters E
                  (tr @ [GuiRegisterHandler ''CameraSkill.ViewPortStatus'' ''handle_camera_status'',
                         GuiRegisterHandler ''CameraSkill.EndProcess'' ''handle_camera_completed'',
                         BusOn ''skill.camera.showcam'' ''handle_stream'']
                      @ map (\<lambda>word. RegisterVocabulary word ''location'') (map fst (cams s))
                      @ [CecConfiguration, CecAddDeviceType, CecCreate])
                  DetectAdapters = []) ev)
   \<and> (\<exists>ev. snd (snd (handle_get_stream msg E (s, tr))) = tr @ ev
        \<and> list_all (\<lambda>c. speaks c \<noteq> None \<longrightarrow>
              c = SpeakDialog ''display.not.available'' [] \<and> display s = Some False
              \<or> c = SpeakDialog ''stream.not_specified'' [] \<and> display s = Some True
                  \<and> \<not> truthy (data msg ''location'')
              \<or> (\<exists>name. c = SpeakDialog ''stream.no_config'' [(''cam'', name)]
                    \<and> display s = Some True \<and> data msg ''location'' = Some name \<and> name \<noteq> []
                    \<and> \<not> truthy (map_of (cams s) name))) ev)"
proof -
  have six: "(\<exists>ev. snd (snd (run op E (s, tr))) = tr @ ev \<and> list_all (\<lambda>c. speaks c \<in> dialogs) ev
        \<and> (\<not> guarded op \<longrightarrow>
             list_all (\<lambda>c. speaks c = None \<or> speaks c = Some ''acknowledge'') ev))
   \<and> (never_raises E \<longrightarrow>
        (if ret_adapters E (tr @ [CecConfiguration, CecAddDeviceType, CecCreate]) DetectAdapters = []
         then setup_cec E (s, tr) =
                (Inr (), s\<lparr>remote := Some (), display := Some False\<rparr>,
                 tr @ [CecConfiguration, CecAddDeviceType, CecCreate, DetectAdapters,
                       Log WARNING, SpeakDialog ''display.not.available'' []])
         else (\<exists>ev. snd (snd (setup_cec E (s, tr))) = tr @ ev
                  \<and> list_all (\<lambda>c. speaks c = None) ev)))
   \<and> (display s = Some False \<longrightarrow>
        snd (handle_get_stream msg E (s, tr)) = (s, tr @ [SpeakDialog ''display.not.available'' []]))
   \<and> (never_raises E \<and> display s = Some True \<and> \<not> truthy (data msg ''location'') \<longrightarrow>
        handle_get_stream msg E (s, tr) =
          (Inr (), s, tr @ [Log DEBUG, Log DEBUG, SpeakDialog ''stream.not_specified'' []]))
   \<and> (\<forall>name. never_raises E \<and> display s = Some True \<and> data msg ''location'' = Some name
          \<and> name \<noteq> [] \<and> \<not> truthy (map_of (cams s) name) \<longrightarrow>
        handle_get_stream msg E (s, tr) =
          (Inr (), s, tr @ [Log DEBUG, Log DEBUG,
                            SpeakDialog ''stream.no_config'' [(''cam'', name)]]))
   \<and> (\<forall>name. display s = Some True \<and> data msg ''location'' = Some name
          \<and> name \<noteq> [] \<and> truthy (map_of (cams s) name) \<longrightarrow>
        (\<exists>ev. snd (snd (handle_get_stream msg E (s, tr))) = tr @ ev
             \<and> list_all (\<lambda>c. speaks c = None) ev))"
    using run_dialogs[of op E s tr] setup_no_adapter[of E tr s] setup_with_adapter[of E tr s]
      get_stream_unavailable[of s msg E tr] get_stream_not_specified[of E s msg tr]
      get_stream_no_config[of E s msg _ tr] get_stream_silent[of s msg _ E tr]
    by simp
  show ?thesis
    using six get_stream_unset[of s msg E tr] initialize_setup[of E s tr]
      setup_speech[of E s tr] initialize_speech[of E s tr] get_stream_speech[of msg E s tr]
    by blast
qed

theorem three_fallback_guards_witness:
  "setup_cec no_adapter (fresh, []) =
     (Inr (), fresh\<lparr>remote := Some (), display := Some False\<rparr>,
      [CecConfiguration, CecAddDeviceType, CecCreate, DetectAdapters,
       Log WARNING, SpeakDialog ''display.not.available'' []])
   \<and> handle_get_stream garage_request no_adapter (ready, []) =
     (Inr (), ready,
      [Log DEBUG, Log DEBUG, SpeakDialog ''stream.no_config'' [(''cam'', ''garage'')]])"
proof -
  note t = three_fallback_guards[of SetupCec no_adapter fresh "[]" garage_request]
  note u = three_fallback_guards[of SetupCec no_adapter ready "[]" garage_request]
  have g: "display ready = Some True \<and> data garage_request ''location'' = Some ''garage''
      \<and> ''garage'' \<noteq> [] \<and> \<not> truthy (map_of (cams ready) ''garage'')"
    by (simp add: ready_def fresh_def garage_request_def door_cams_def truthy_def)
  from t never_raises_no_adapter have "setup_cec no_adapter (fresh, []) =
     (Inr (), fresh\<lparr>remote := Some (), display := Some False\<rparr>,
      [CecConfiguration, CecAddDeviceType, CecCreate, DetectAdapters,
       Log WARNING, SpeakDialog ''display.not.available'' []])"
    by (simp add: no_adapter_def quiet_def)
  moreover from u never_raises_no_adapter g
  have "handle_get_stream garage_request no_adapter (ready, []) =
     (Inr (), ready,
      [Log DEBUG, Log DEBUG, SpeakDialog ''stream.no_config'' [(''cam'', ''garage'')]])"
    by simp
  ultimately show ?thesis by simp
qed

text \<open>
  Claim C3. If the detection of adapters during \<open>setup_cec\<close> returns the empty list (and
  no call raises), the skill speaks \<open>display.not.available\<close> and sets its flag \<open>display\<close>
  to false, after the four CEC calls that lead to the detection and without any further
  CEC or GUI call. For every later request through \<open>handle_get_stream\<close>, in any
  environment and for any message, while the flag is false: the only call is the spoken
  dialog \<open>display.not.available\<close>, and the object is unchanged.
\<close>

theorem no_adapter_display_unavailable:
  assumes "never_raises E"
    and "ret_adapters E (tr @ [CecConfiguration, CecAddDeviceType, CecCreate]) DetectAdapters = []"
  shows "setup_cec E (s, tr) =
       (Inr (), s\<lparr>remote := Some (), display := Some False\<rparr>,
        tr @ [CecConfiguration, CecAddDeviceType, CecCreate, DetectAdapters, Log WARNING,
              SpeakDialog ''display.not.available'' []])
     \<and> (\<forall>msg E' s' tr'. display s' = Some False \<longrightarrow>
           snd (handle_get_stream msg E' (s', tr'))
             = (s', tr' @ [SpeakDialog ''display.not.available'' []]))"
  using setup_no_adapter[OF assms] get_stream_unavailable by simp

theorem no_adapter_display_unavailable_witness:
  "setup_cec no_adapter (fresh, []) =
       (Inr (), fresh\<lparr>remote := Some (), display := Some False\<rparr>,
        [CecConfiguration, CecAddDeviceType, CecCreate, DetectAdapters, Log WARNING,
         SpeakDialog ''display.not.available'' []])
   \<and> snd (handle_get_stream door_request quiet
            (fresh\<lparr>remote := Some (), display := Some False\<rparr>, []))
       = (fresh\<lparr>remote := Some (), display := Some False\<rparr>,
          [SpeakDialog ''display.not.available'' []])"
  using no_adapter_display_unavailable[OF never_raises_no_adapter, of "[]" fresh]
  by (simp add: no_adapter_def quiet_def)



section \<open>Showing and closing a stream\<close>

text \<open>
  Claim C5. When the CEC handle and the display id are set and no call raises,
  \<open>show_stream\<close> with a numeric idle \<open>n\<close> shows the URL (if \<open>SetActiveSource\<close> succeeded),
  then sleeps \<open>n - 2\<close> seconds, then closes the view through \<open>handle_camera_completed\<close>
  (which removes the page \<open>Camera.qml\<close> and releases the GUI). With idle \<open>True\<close> it
  neither sleeps nor closes the view. A request through \<open>handle_get_stream\<close> for a
  configured camera is shown with idle 60 when \<open>view.short\<close> was matched and with idle
  \<open>True\<close> otherwise.
\<close>

theorem timed_view_sleeps_then_closes:
  assumes "never_raises E" and "remote s = Some ()" and "display_id s = Some i"
  shows "let code = ret_int E tr (GetDevicePowerStatus i);
             status = ret_str E (tr @ [GetDevicePowerStatus i]) (PowerStatusToString code);
             active = ret_bool E (tr @ [GetDevicePowerStatus i, PowerStatusToString code, Log DEBUG])
                        SetActiveSource;
             opening = [GetDevicePowerStatus i, PowerStatusToString code, Log DEBUG,
                        SetActiveSource]
         in snd (snd (show_stream url (IdleSecs n) E (s, tr))) =
              tr @ opening @ (if active then [GuiShowUrl url (IdleSecs n)] else [])
                 @ [Sleep (n - 2), GuiRemovePage ''Camera.qml'', GuiRelease, Log DEBUG]
                 @ (if status = ''standby'' then [StandbyDevices i, Log DEBUG] else [])
          \<and> snd (snd (show_stream url IdleTrue E (s, tr))) =
              tr @ opening @ (if active then [GuiShowUrl url IdleTrue] else [])
          \<and> (\<forall>msg name.
                display s = Some True \<and> data msg ''location'' = Some name \<and> name \<noteq> []
                \<and> truthy (map_of (cams s) name)
                \<longrightarrow> handle_get_stream msg E (s, tr) =
                      show_stream (map_of (cams s) name)
                        (if truthy (data msg ''view.short'') then IdleSecs 60 else IdleTrue)
                        E (s, tr @ [Log DEBUG, Log DEBUG]))"
  using show_stream_trace[OF assms, of url "IdleSecs n" tr]
    show_stream_trace[OF assms, of url IdleTrue tr] get_stream_shows[OF assms(1)]
  by (simp add: Let_def)

theorem timed_view_sleeps_then_closes_witness:
  "snd (snd (show_stream (Some ''rtsp://door'') (IdleSecs 60) tv_standby (ready, []))) =
     [GetDevicePowerStatus 0, PowerStatusToString 0, Log DEBUG, SetActiveSource,
      GuiShowUrl (Some ''rtsp://door'') (IdleSecs 60),
      Sleep 58, GuiRemovePage ''Camera.qml'', GuiRelease, Log DEBUG,
      StandbyDevices 0, Log DEBUG]
   \<and> snd (snd (show_stream (Some ''rtsp://door'') IdleTrue tv_standby (ready, []))) =
     [GetDevicePowerStatus 0, PowerStatusToString 0, Log DEBUG, SetActiveSource,
      GuiShowUrl (Some ''rtsp://door'') IdleTrue]"
proof -
  have "remote ready = Some ()" "display_id ready = Some 0"
    by (simp_all add: ready_def fresh_def)
  from timed_view_sleeps_then_closes[OF never_raises_standby this,
      of "[]" "Some ''rtsp://door''" 60]
  show ?thesis
    by (simp add: Let_def tv_standby_def quiet_def)
qed

text \<open>
  Claim C9. When \<open>display_status\<close>, the CEC handle and the display id are set and no call
  raises, \<open>handle_camera_completed\<close> removes the page \<open>Camera.qml\<close>, releases the GUI,
  and then calls \<open>StandbyDevices\<close> for the display exactly when the recorded status is
  the string \<open>standby\<close>; for any other status it issues no CEC call. The recorded
  status is the one \<open>show_stream\<close> obtained at its start from \<open>GetDevicePowerStatus\<close> and
  \<open>PowerStatusToString\<close>, and no operation that does not reach \<open>show_stream\<close>
  changes it.
\<close>

theorem completed_standby_iff:
  assumes "never_raises E" and "display_status s = Some st" and "remote s = Some ()"
    and "display_id s = Some i"
  shows "handle_camera_completed E (s, tr) =
       (Inr (), s, tr @ [GuiRemovePage ''Camera.qml'', GuiRelease, Log DEBUG]
          @ (if st = ''standby'' then [StandbyDevices i, Log DEBUG] else []))
     \<and> (\<forall>url idl s0 tr0. remote s0 = Some () \<and> display_id s0 = Some i \<longrightarrow>
           display_status (fst (snd (show_stream url idl E (s0, tr0)))) =
             Some (ret_str E (tr0 @ [GetDevicePowerStatus i])
                    (PowerStatusToString (ret_int E tr0 (GetDevicePowerStatus i)))))
     \<and> (\<forall>op E' s1 tr1. \<not> streams op \<longrightarrow>
           display_status (fst (snd (run op E' (s1, tr1)))) = display_status s1)"
proof -
  have a: "\<forall>url idl s0 tr0. remote s0 = Some () \<and> display_id s0 = Some i \<longrightarrow>
           display_status (fst (snd (show_stream url idl E (s0, tr0)))) =
             Some (ret_str E (tr0 @ [GetDevicePowerStatus i])
                    (PowerStatusToString (ret_int E tr0 (GetDevicePowerStatus i))))"
    using show_stream_trace[OF assms(1)] by (simp add: Let_def)
  have b: "\<forall>op E' s1 tr1. \<not> streams op \<longrightarrow>
           display_status (fst (snd (run op E' (s1, tr1)))) = display_status s1"
  proof (intro allI impI)
    fix op E' s1 tr1 assume "\<not> streams op"
    from soundD[OF sound_run_status[OF this], of E' s1 tr1]
    show "display_status (fst (snd (run op E' (s1, tr1)))) = display_status s1"
      by (cases "run op E' (s1, tr1)") auto
  qed
  from completed_trace[OF assms] a b show ?thesis by blast
qed

theorem completed_standby_iff_witness:
  "handle_camera_completed quiet (ready\<lparr>display_status := Some ''standby''\<rparr>, []) =
     (Inr (), ready\<lparr>display_status := Some ''standby''\<rparr>,
      [GuiRemovePage ''Camera.qml'', GuiRelease, Log DEBUG, StandbyDevices 0, Log DEBUG])
   \<and> handle_camera_completed quiet (ready\<lparr>display_status := Some ''on''\<rparr>, []) =
     (Inr (), ready\<lparr>display_status := Some ''on''\<rparr>,
      [GuiRemovePage ''Camera.qml'', GuiRelease, Log DEBUG])
   \<and> display_status (fst (snd (show_stream None IdleTrue tv_standby (ready, []))))
       = Some ''standby''
   \<and> display_status (fst (snd (run Initialize quiet (fresh, [])))) = None"
proof -
  have r: "remote (ready\<lparr>display_status := Some x\<rparr>) = Some ()"
    "display_id (ready\<lparr>display_status := Some x\<rparr>) = Some 0"
    "display_status (ready\<lparr>display_status := Some x\<rparr>) = Some x" for x
    by (simp_all add: ready_def fresh_def)
  have r0: "remote ready = Some ()" "display_id ready = Some 0"
    by (simp_all add: ready_def fresh_def)
  note standby = completed_standby_iff[OF never_raises_quiet r(3) r(1) r(2), of "''standby''" "[]"]
  note on = completed_standby_iff[OF never_raises_quiet r(3) r(1) r(2), of "''on''" "[]"]
  note rec = completed_standby_iff[OF never_raises_standby r(3) r(1) r(2), of "''on''" "[]"]
  from rec have "\<forall>url idl s0 tr0. remote s0 = Some () \<and> display_id s0 = Some 0 \<longrightarrow>
           display_status (fst (snd (show_stream url idl tv_standby (s0, tr0)))) =
             Some (ret_str tv_standby (tr0 @ [GetDevicePowerStatus 0])
                    (PowerStatusToString (ret_int tv_standby tr0 (GetDevicePowerStatus 0))))"
    by blast
  from this[rule_format, of ready None IdleTrue "[]"] r0
  have "display_status (fst (snd (show_stream None IdleTrue tv_standby (ready, [])))) = Some ''standby''"
    by (simp add: tv_standby_def quiet_def)
  moreover from standby have "\<forall>op E' s1 tr1. \<not> streams op \<longrightarrow>
           display_status (fst (snd (run op E' (s1, tr1)))) = display_status s1"
    by blast
  from this[rule_format, of Initialize quiet fresh "[]"]
  have "display_status (fst (snd (run Initialize quiet (fresh, [])))) = None"
    by (simp add: fresh_def)
  ultimately show ?thesis using standby on by simp
qed

section \<open>The bus event\<close>

text \<open>
  Claim C6. During \<open>initialize\<close> (calls returning) the skill subscribes
  \<open>handle_stream\<close> to the bus event \<open>skill.camera.showcam\<close>. The handler looks the
  message's \<open>utterance\<close> up in the configured mapping and calls \<open>show_stream\<close> with the
  result and idle 60. With the CEC handle and the display id set, that issues
  \<open>GetDevicePowerStatus\<close> and \<open>SetActiveSource\<close> and, exactly when \<open>SetActiveSource\<close>
  returned true, \<open>show_url\<close> with the URL; then it sleeps 58 seconds and closes the view.
\<close>

theorem bus_event_shows_camera:
  assumes "never_raises E"
  shows "(\<exists>ev. snd (snd (initialize E (s, tr))) =
            tr @ [GuiRegisterHandler ''CameraSkill.ViewPortStatus'' ''handle_camera_status'',
                  GuiRegisterHandler ''CameraSkill.EndProcess'' ''handle_camera_completed'',
                  BusOn ''skill.camera.showcam'' ''handle_stream''] @ ev)
     \<and> run (HandleStream msg) E (s, tr) =
          show_stream (cams_get (cams s) (data msg ''utterance'')) (IdleSecs 60) E (s, tr)
     \<and> (\<forall>i. remote s = Some () \<and> display_id s = Some i \<longrightarrow>
          (let url = cams_get (cams s) (data msg ''utterance'');
               code = ret_int E tr (GetDevicePowerStatus i);
               status = ret_str E (tr @ [GetDevicePowerStatus i]) (PowerStatusToString code);
               active = ret_bool E
                          (tr @ [GetDevicePowerStatus i, PowerStatusToString code, Log DEBUG])
                          SetActiveSource
           in snd (snd (run (HandleStream msg) E (s, tr))) =
                tr @ [GetDevicePowerStatus i, PowerStatusToString code, Log DEBUG,
                      SetActiveSource]
                   @ (if active then [GuiShowUrl url (IdleSecs 60)] else [])
                   @ [Sleep 58, GuiRemovePage ''Camera.qml'', GuiRelease, Log DEBUG]
                   @ (if status = ''standby'' then [StandbyDevices i, Log DEBUG] else [])))"
  using initialize_subscribes[OF assms, of s tr] stream_is_show_stream[of msg E s tr]
    show_stream_trace[OF assms, of s _ "cams_get (cams s) (data msg ''utterance'')" "IdleSecs 60" tr]
  by (simp add: Let_def)

theorem bus_event_shows_camera_witness:
  "run (HandleStream door_event) quiet (ready, []) =
     show_stream (Some ''rtsp://door'') (IdleSecs 60) quiet (ready, [])
   \<and> snd (snd (run (HandleStream door_event) quiet (ready, []))) =
       [GetDevicePowerStatus 0, PowerStatusToString 0, Log DEBUG, SetActiveSource,
        GuiShowUrl (Some ''rtsp://door'') (IdleSecs 60),
        Sleep 58, GuiRemovePage ''Camera.qml'', GuiRelease, Log DEBUG]"
proof -
  have r: "remote ready = Some () \<and> display_id ready = Some 0"
    by (simp add: ready_def fresh_def)
  have u: "cams_get (cams ready) (data door_event ''utterance'') = Some ''rtsp://door''"
    by (simp add: cams_get_def ready_def fresh_def door_cams_def door_event_def)
  from bus_event_shows_camera[OF never_raises_quiet, of ready "[]" door_event]
  have "run (HandleStream door_event) quiet (ready, []) =
          show_stream (cams_get (cams ready) (data door_event ''utterance'')) (IdleSecs 60)
            quiet (ready, [])"
    and "\<forall>i. remote ready = Some () \<and> display_id ready = Some i \<longrightarrow>
          (let url = cams_get (cams ready) (data door_event ''utterance'');
               code = ret_int quiet [] (GetDevicePowerStatus i);
               status = ret_str quiet ([] @ [GetDevicePowerStatus i]) (PowerStatusToString code);
               active = ret_bool quiet
                          ([] @ [GetDevicePowerStatus i, PowerStatusToString code, Log DEBUG])
                          SetActiveSource
           in snd (snd (run (HandleStream door_event) quiet (ready, []))) =
                [] @ [GetDevicePowerStatus i, PowerStatusToString code, Log DEBUG,
                      SetActiveSource]
                   @ (if active then [GuiShowUrl url (IdleSecs 60)] else [])
                   @ [Sleep 58, GuiRemovePage ''Camera.qml'', GuiRelease, Log DEBUG]
                   @ (if status = ''standby'' then [StandbyDevices i, Log DEBUG] else []))"
    by blast+
  from this(1) this(2)[rule_format, OF r] u show ?thesis
    by (simp add: Let_def quiet_def)
qed

text \<open>
  Claim C8, as stated, fails: when \<open>initialize\<close> has found no adapter, \<open>display_id\<close> is
  never assigned, and a bus message with an unknown camera name then ends in the
  attribute error for \<open>display_id\<close> before any CEC call is issued.
\<close>

theorem bus_event_without_adapter:
  "initialize no_adapter (fresh, []) =
     (Inr (), unavailable,
      [GuiRegisterHandler ''CameraSkill.ViewPortStatus'' ''handle_camera_status'',
       GuiRegisterHandler ''CameraSkill.EndProcess'' ''handle_camera_completed'',
       BusOn ''skill.camera.showcam'' ''handle_stream'',
       RegisterVocabulary ''door'' ''location'',
       CecConfiguration, CecAddDeviceType, CecCreate, DetectAdapters, Log WARNING,
       SpeakDialog ''display.not.available'' []])
   \<and> data garage_event ''utterance'' = Some ''garage''
   \<and> map_of (cams unavailable) ''garage'' = None
   \<and> run (HandleStream garage_event) no_adapter (unavailable, []) =
       (Inl (AttributeError ''display_id''), unavailable, [])"
  using initialize_unavailable
  by (simp add: handle_stream_def show_stream_def act_defs cams_get_def Let_def
      unavailable_def fresh_def door_cams_def garage_event_def)

text \<open>
  Claim C8, amended. The bus path is unguarded. For every message whose \<open>utterance\<close> is
  not a configured camera name (or is absent), \<open>handle_stream\<close> is \<open>show_stream\<close> with the
  URL \<open>None\<close> and idle 60; in every environment and for every object it speaks no dialog,
  and it does not depend on the flag \<open>display\<close> nor change it. When the setup has found an
  adapter (the CEC handle and the display id are assigned) and calls return, it issues
  \<open>GetDevicePowerStatus\<close>, \<open>SetActiveSource\<close> and, when that returned true, \<open>show_url\<close> with
  \<open>None\<close>. When the setup has found no adapter (\<open>display_id\<close> is not assigned), or has not
  run, it raises the attribute error for the missing attribute and issues no call.
\<close>

theorem bus_event_unguarded:
  assumes "\<forall>u. data msg ''utterance'' = Some u \<longrightarrow> u \<notin> fst ` set (cams s)"
  shows "run (HandleStream msg) E (s, tr) = show_stream None (IdleSecs 60) E (s, tr)
     \<and> (\<exists>ev. snd (snd (run (HandleStream msg) E (s, tr))) = tr @ ev
            \<and> list_all (\<lambda>c. speaks c = None) ev)
     \<and> (\<forall>d. run (HandleStream msg) E (s\<lparr>display := d\<rparr>, tr) =
            (case run (HandleStream msg) E (s, tr) of
               (r, s', tr') \<Rightarrow> (r, s'\<lparr>display := d\<rparr>, tr')))
     \<and> (\<forall>i. never_raises E \<and> remote s = Some () \<and> display_id s = Some i \<longrightarrow>
          (let code = ret_int E tr (GetDevicePowerStatus i);
               status = ret_str E (tr @ [GetDevicePowerStatus i]) (PowerStatusToString code);
               active = ret_bool E
                          (tr @ [GetDevicePowerStatus i, PowerStatusToString code, Log DEBUG])
                          SetActiveSource
           in snd (snd (run (HandleStream msg) E (s, tr))) =
                tr @ [GetDevicePowerStatus i, PowerStatusToString code, Log DEBUG,
                      SetActiveSource]
                   @ (if active then [GuiShowUrl None (IdleSecs 60)] else [])
                   @ [Sleep 58, GuiRemovePage ''Camera.qml'', GuiRelease, Log DEBUG]
                   @ (if status = ''standby'' then [StandbyDevices i, Log DEBUG] else [])))
     \<and> (remote s = Some () \<and> display_id s = None \<longrightarrow>
          run (HandleStream msg) E (s, tr) = (Inl (AttributeError ''display_id''), s, tr))
     \<and> (remote s = None \<longrightarrow>
          run (HandleStream msg) E (s, tr) = (Inl (AttributeError ''remote''), s, tr))"
proof -
  note u = unmatched_utterance[OF assms]
  have a: "run (HandleStream msg) E (s, tr) = show_stream None (IdleSecs 60) E (s, tr)"
    using stream_is_show_stream[of msg E s tr] u by simp
  have b: "\<exists>ev. snd (snd (run (HandleStream msg) E (s, tr))) = tr @ ev
            \<and> list_all (\<lambda>c. speaks c = None) ev"
    using a show_stream_silent[of None "IdleSecs 60" E s tr] by simp
  have c: "\<forall>d. run (HandleStream msg) E (s\<lparr>display := d\<rparr>, tr) =
            (case run (HandleStream msg) E (s, tr) of
               (r, s', tr') \<Rightarrow> (r, s'\<lparr>display := d\<rparr>, tr'))"
    using blind_stream[of msg "IdleSecs 60"] by (simp add: blind_def)
  have d: "\<forall>i. never_raises E \<and> remote s = Some () \<and> display_id s = Some i \<longrightarrow>
          (let code = ret_int E tr (GetDevicePowerStatus i);
               status = ret_str E (tr @ [GetDevicePowerStatus i]) (PowerStatusToString code);
               active = ret_bool E
                          (tr @ [GetDevicePowerStatus i, PowerStatusToString code, Log DEBUG])
                          SetActiveSource
           in snd (snd (run (HandleStream msg) E (s, tr))) =
                tr @ [GetDevicePowerStatus i, PowerStatusToString code, Log DEBUG,
                      SetActiveSource]
                   @ (if active then [GuiShowUrl None (IdleSecs 60)] else [])
                   @ [Sleep 58, GuiRemovePage ''Camera.qml'', GuiRelease, Log DEBUG]
                   @ (if status = ''standby'' then [StandbyDevices i, Log DEBUG] else []))"
    using a show_stream_trace[of E s _ None "IdleSecs 60" tr] by (simp add: Let_def)
  have e: "remote s = Some () \<and> display_id s = None \<longrightarrow>
          run (HandleStream msg) E (s, tr) = (Inl (AttributeError ''display_id''), s, tr)"
    using a show_stream_unset_id[of s None "IdleSecs 60" E tr] by simp
  have f: "remote s = None \<longrightarrow>
          run (HandleStream msg) E (s, tr) = (Inl (AttributeError ''remote''), s, tr)"
    using a show_stream_unset_remote[of s None "IdleSecs 60" E tr] by simp
  from a b c d e f show ?thesis by blast
qed

theorem bus_event_unguarded_witness:
  "run (HandleStream garage_event) quiet (ready, []) =
     (Inr (), ready\<lparr>display_status := Some ''on''\<rparr>,
      [GetDevicePowerStatus 0, PowerStatusToString 0, Log DEBUG, SetActiveSource,
       GuiShowUrl None (IdleSecs 60),
       Sleep 58, GuiRemovePage ''Camera.qml'', GuiRelease, Log DEBUG])
   \<and> run (HandleStream garage_event) no_adapter (unavailable, []) =
     (Inl (AttributeError ''display_id''), unavailable, [])"
proof -
  have u1: "\<forall>u. data garage_event ''utterance'' = Some u \<longrightarrow> u \<notin> fst ` set (cams ready)"
    by (simp add: ready_def fresh_def door_cams_def garage_event_def)
  have u2: "\<forall>u. data garage_event ''utterance'' = Some u \<longrightarrow> u \<notin> fst ` set (cams unavailable)"
    by (simp add: unavailable_def fresh_def door_cams_def garage_event_def)
  from bus_event_unguarded[OF u1, of quiet "[]"]
  have "run (HandleStream garage_event) quiet (ready, []) =
          show_stream None (IdleSecs 60) quiet (ready, [])"
    by blast
  moreover have "show_stream None (IdleSecs 60) quiet (ready, []) =
     (Inr (), ready\<lparr>display_status := Some ''on''\<rparr>,
      [GetDevicePowerStatus 0, PowerStatusToString 0, Log DEBUG, SetActiveSource,
       GuiShowUrl None (IdleSecs 60),
       Sleep 58, GuiRemovePage ''Camera.qml'', GuiRelease, Log DEBUG])"
    using show_stream_trace[OF never_raises_quiet, of ready 0 None "IdleSecs 60" "[]"]
    by (simp add: Let_def quiet_def ready_def fresh_def)
  moreover from bus_event_unguarded[OF u2, of no_adapter "[]"]
  have "remote unavailable = Some () \<and> display_id unavailable = None \<longrightarrow>
          run (HandleStream garage_event) no_adapter (unavailable, [])
            = (Inl (AttributeError ''display_id''), unavailable, [])"
    by blast
  then have "run (HandleStream garage_event) no_adapter (unavailable, [])
            = (Inl (AttributeError ''display_id''), unavailable, [])"
    by (simp add: unavailable_def fresh_def)
  ultimately show ?thesis by simp
qed

section \<open>Closing the view before any stream was shown\<close>

text \<open>
  Claim C10. \<open>handle_camera_completed\<close> reads \<open>display_status\<close> unconditionally, and
  \<open>display_id\<close> on the standby branch. While \<open>display_status\<close> is unset, \<open>stop\<close> and the
  \<open>CompleteCam\<close> handler never return normally, in any environment; when the two GUI
  calls return they raise the attribute error for \<open>display_status\<close>. The attribute is
  unset after construction, and only the operations that reach \<open>show_stream\<close> assign it;
  \<open>display_id\<close> is unset after construction and only \<open>setup_cec\<close> (alone or through
  \<open>initialize\<close>) assigns it, and with the status \<open>standby\<close> and \<open>display_id\<close> unset the
  attribute error for \<open>display_id\<close> is raised.
\<close>

theorem completed_before_stream_raises:
  assumes "display_status s = None"
  shows "isl (fst (run Stop E (s, tr))) \<and> isl (fst (run HandleCameraCompleted E (s, tr)))
     \<and> (never_raises E \<longrightarrow>
          run Stop E (s, tr) =
            (Inl (AttributeError ''display_status''), s,
             tr @ [GuiRemovePage ''Camera.qml'', GuiRelease])
          \<and> run HandleCameraCompleted E (s, tr) =
            (Inl (AttributeError ''display_status''), s,
             tr @ [GuiRemovePage ''Camera.qml'', GuiRelease]))
     \<and> (\<forall>op E' s1 tr1. \<not> streams op \<longrightarrow>
           display_status (fst (snd (run op E' (s1, tr1)))) = display_status s1)
     \<and> (\<forall>op E' s1 tr1. \<not> sets_up op \<longrightarrow>
           display_id (fst (snd (run op E' (s1, tr1)))) = display_id s1)
     \<and> (\<forall>cfg E' tr0 s0 tr1. create_skill cfg E' tr0 = (Inr s0, tr1) \<longrightarrow>
           display_status s0 = None \<and> display_id s0 = None)
     \<and> (\<forall>E' s1 tr1. never_raises E' \<and> display_status s1 = Some ''standby''
             \<and> remote s1 = Some () \<and> display_id s1 = None \<longrightarrow>
           run Stop E' (s1, tr1) =
             (Inl (AttributeError ''display_id''), s1,
              tr1 @ [GuiRemovePage ''Camera.qml'', GuiRelease, Log DEBUG]))"
proof -
  have a: "\<forall>op E' s1 tr1. \<not> streams op \<longrightarrow>
           display_status (fst (snd (run op E' (s1, tr1)))) = display_status s1"
  proof (intro allI impI)
    fix op E' s1 tr1 assume "\<not> streams op"
    from soundD[OF sound_run_status[OF this], of E' s1 tr1]
    show "display_status (fst (snd (run op E' (s1, tr1)))) = display_status s1"
      by (cases "run op E' (s1, tr1)") auto
  qed
  have b: "\<forall>op E' s1 tr1. \<not> sets_up op \<longrightarrow>
           display_id (fst (snd (run op E' (s1, tr1)))) = display_id s1"
  proof (intro allI impI)
    fix op E' s1 tr1 assume "\<not> sets_up op"
    from soundD[OF sound_run_display_id[OF this], of E' s1 tr1]
    show "display_id (fst (snd (run op E' (s1, tr1)))) = display_id s1"
      by (cases "run op E' (s1, tr1)") auto
  qed
  have c: "\<forall>cfg E' tr0 s0 tr1. create_skill cfg E' tr0 = (Inr s0, tr1) \<longrightarrow>
           display_status s0 = None \<and> display_id s0 = None"
    using created_unset by blast
  have d: "\<forall>E' s1 tr1. never_raises E' \<and> display_status s1 = Some ''standby''
             \<and> remote s1 = Some () \<and> display_id s1 = None \<longrightarrow>
           run Stop E' (s1, tr1) =
             (Inl (AttributeError ''display_id''), s1,
              tr1 @ [GuiRemovePage ''Camera.qml'', GuiRelease, Log DEBUG])"
    using completed_unset_id by (simp add: stop_def)
  from completed_unset_status[OF assms, of E tr] a b c d show ?thesis
    by (simp add: stop_def)
qed

theorem completed_before_stream_raises_witness:
  "create_skill (Some door_cams) quiet [] =
     (Inr fresh, [SuperInit ''CameraSkill'', ExpandUser ''~/Pictures'', IsDir ''/home/pi/Pictures''])
   \<and> fst (snd (initialize quiet (fresh, []))) = ready
   \<and> run Stop quiet (ready, []) =
       (Inl (AttributeError ''display_status''), ready,
        [GuiRemovePage ''Camera.qml'', GuiRelease])"
proof -
  have "display_status ready = None"
    by (simp add: ready_def fresh_def)
  from completed_before_stream_raises[OF this, of quiet "[]"] never_raises_quiet
  have "run Stop quiet (ready, []) =
       (Inl (AttributeError ''display_status''), ready,
        [GuiRemovePage ''Camera.qml'', GuiRelease])"
    by simp
  with create_fresh initialize_ready show ?thesis by simp
qed

end
